theory Spec2Isabelle
  imports Complex_Main
begin

section \<open>The video handler of YUView: data model\<close>

text \<open>
  The development embeds \<^verbatim>\<open>source/videoHandler.cpp\<close>. The class \<^verbatim>\<open>videoHandler\<close> becomes a
  record, every member function a function on that record. Signals that the handler emits and
  the calls it makes on the painter are appended to an event list, in program order.
\<close>

text \<open>A \<^verbatim>\<open>QImage\<close> is opaque to the handler: it is either the null image (\<^verbatim>\<open>QImage()\<close>) or
  some pixel data.\<close>

datatype QImage = QImage_null | QImage_pixels "nat list"

fun isNull :: "QImage \<Rightarrow> bool" where
  "isNull QImage_null = True"
| "isNull (QImage_pixels px) = False"

text \<open>What the handler sends to the outside: its four signals, and the two drawing calls of
  \<^verbatim>\<open>drawFrame\<close>. The rectangle of \<^verbatim>\<open>drawImage\<close> is determined by the frame size and the zoom
  factor; its arithmetic is not modelled, the event carries both.\<close>

datatype event =
    signalUpdateFrameLimits
  | signalHandlerChanged bool bool
  | signalRequestFrame int bool
  | cachingTimerStart
  | drawImage "int \<times> int" real QImage
  | drawPixelValues int real

text \<open>A \<^verbatim>\<open>QBasicTimer\<close> holds the id of its running timer, or 0 when it is not active.\<close>

type_synonym QBasicTimer = int

definition QBasicTimer_isActive :: "QBasicTimer \<Rightarrow> bool" where
  "QBasicTimer_isActive t = (t \<noteq> 0)"

definition QBasicTimer_start :: "int \<Rightarrow> QBasicTimer \<Rightarrow> QBasicTimer" where
  \<comment> \<open>\<open>qid\<close> is the id that Qt's event dispatcher gives to the timer it starts.\<close>
  "QBasicTimer_start qid t = qid"

definition QBasicTimer_stop :: "QBasicTimer \<Rightarrow> QBasicTimer" where
  "QBasicTimer_stop t = 0"

text \<open>
  The members of the handler. \<^verbatim>\<open>imageCache\<close> is a \<^verbatim>\<open>QMap<int,QImage>\<close>.
  \<^verbatim>\<open>cachingFramesMutices\<close> is a \<^verbatim>\<open>QMap<int,QMutex*>\<close>: every \<^verbatim>\<open>QMutex\<close> it points to is
  created by \<^verbatim>\<open>cacheFrame\<close> for exactly one entry and deleted when that entry is taken out, so
  the map stores the state of the mutex (\<open>True\<close>: locked) in place of the pointer.
  The three member mutexes \<^verbatim>\<open>imageCacheAccess\<close>, \<^verbatim>\<open>cachingFramesMuticesAccess\<close> and
  \<^verbatim>\<open>requestDataMutex\<close> are free whenever a member function runs alone; they appear in the
  interleaving model of the last sections.
\<close>

record videoHandler =
  frameSize :: "int \<times> int"
  currentImage :: QImage
  currentImageIdx :: int
  currentImage_frameIndex :: int
  loadingInBackground :: bool
  requestedFrame :: QImage
  requestedFrame_idx :: int
  imageCache :: "int \<rightharpoonup> QImage"
  cachingFramesMutices :: "int \<rightharpoonup> bool"
  cachingTimer :: QBasicTimer
  events :: "event list"

text \<open>The slot that the owner of the handler connects to \<^verbatim>\<open>signalRequestFrame\<close> is not part of
  this file. It receives the frame index and the caching flag and may write the shared buffer
  \<^verbatim>\<open>requestedFrame\<close> and \<^verbatim>\<open>requestedFrame_idx\<close>; it is a parameter of the model.\<close>

type_synonym producer = "int \<Rightarrow> bool \<Rightarrow> QImage \<times> int \<Rightarrow> QImage \<times> int"

section \<open>Member functions\<close>

definition emit :: "event \<Rightarrow> videoHandler \<Rightarrow> videoHandler" where
  "emit e s = s\<lparr>events := events s @ [e]\<rparr>"

text \<open>The constructor. Members it does not assign are default constructed; the frame size and
  \<^verbatim>\<open>requestedFrame_idx\<close> are not set in this file and are taken as given.\<close>

definition videoHandler_new :: "int \<times> int \<Rightarrow> int \<Rightarrow> videoHandler" where
  "videoHandler_new fs ridx =
     \<lparr> frameSize = fs, currentImage = QImage_null, currentImageIdx = -1,
       currentImage_frameIndex = -1, loadingInBackground = False,
       requestedFrame = QImage_null, requestedFrame_idx = ridx,
       imageCache = Map.empty, cachingFramesMutices = Map.empty,
       cachingTimer = 0, events = [] \<rparr>"

text \<open>The lambda connected to \<^verbatim>\<open>cachingTimerStart\<close> in the constructor, and the emission of
  that signal (the slot runs at the emission).\<close>

definition cachingTimerStart_slot :: "int \<Rightarrow> videoHandler \<Rightarrow> videoHandler" where
  "cachingTimerStart_slot qid s =
     (if \<not> QBasicTimer_isActive (cachingTimer s)
      then s\<lparr>cachingTimer := QBasicTimer_start qid (cachingTimer s)\<rparr>
      else s)"

definition emit_cachingTimerStart :: "int \<Rightarrow> videoHandler \<Rightarrow> videoHandler" where
  "emit_cachingTimerStart qid s = cachingTimerStart_slot qid (emit cachingTimerStart s)"

definition emit_signalRequestFrame :: "producer \<Rightarrow> int \<Rightarrow> bool \<Rightarrow> videoHandler \<Rightarrow> videoHandler" where
  "emit_signalRequestFrame P frameIndex caching s =
     (let s1 = emit (signalRequestFrame frameIndex caching) s;
          buf = P frameIndex caching (requestedFrame s1, requestedFrame_idx s1)
      in s1\<lparr>requestedFrame := fst buf, requestedFrame_idx := snd buf\<rparr>)"

definition clearCache :: "videoHandler \<Rightarrow> videoHandler" where
  "clearCache s = s\<lparr>imageCache := Map.empty\<rparr>"

definition isInCache :: "int \<Rightarrow> videoHandler \<Rightarrow> bool" where
  "isInCache idx s = (imageCache s idx \<noteq> None)"

definition removefromCache :: "int \<Rightarrow> int \<Rightarrow> videoHandler \<Rightarrow> videoHandler" where
  "removefromCache qid idx s =
     (let s1 = (if idx = -1 then s\<lparr>imageCache := Map.empty\<rparr>
                else s\<lparr>imageCache := (imageCache s)(idx := None)\<rparr>)
      in emit_cachingTimerStart qid s1)"

definition invalidateAllBuffers :: "videoHandler \<Rightarrow> videoHandler" where
  "invalidateAllBuffers s =
     (let s1 = emit signalUpdateFrameLimits s;
          s2 = s1\<lparr>currentImageIdx := -1, currentImage_frameIndex := -1,
                  currentImage := QImage_null, requestedFrame_idx := -1\<rparr>
      in clearCache s2)"

definition makeCachedFrameCurrent :: "int \<Rightarrow> videoHandler \<Rightarrow> bool \<times> videoHandler" where
  "makeCachedFrameCurrent frameIdx s =
     (case imageCache s frameIdx of
        Some img \<Rightarrow> (True, s\<lparr>currentImage := img, currentImageIdx := frameIdx\<rparr>)
      | None \<Rightarrow> (False, s))"

text \<open>\<^verbatim>\<open>loadFrame\<close>: the request is issued only when the shared buffer does not already hold
  the frame; when the buffer still holds another frame afterwards the function returns.\<close>

definition loadFrame_promote :: "int \<Rightarrow> videoHandler \<Rightarrow> videoHandler" where
  "loadFrame_promote frameIndex s =
     s\<lparr>currentImage := requestedFrame s, currentImageIdx := frameIndex\<rparr>"

definition loadFrame :: "producer \<Rightarrow> int \<Rightarrow> videoHandler \<Rightarrow> videoHandler" where
  "loadFrame P frameIndex s =
     (if requestedFrame_idx s \<noteq> frameIndex then
        (let s1 = emit_signalRequestFrame P frameIndex False s
         in if requestedFrame_idx s1 \<noteq> frameIndex then s1
            else loadFrame_promote frameIndex s1)
      else loadFrame_promote frameIndex s)"

text \<open>\<^verbatim>\<open>loadFrameForCaching\<close> returns the image through its reference parameter, which the
  caller passes as a null image.\<close>

definition loadFrameForCaching :: "producer \<Rightarrow> int \<Rightarrow> videoHandler \<Rightarrow> QImage \<times> videoHandler" where
  "loadFrameForCaching P frameIndex s =
     (let s1 = emit_signalRequestFrame P frameIndex True s
      in if requestedFrame_idx s1 \<noteq> frameIndex then (QImage_null, s1)
         else (requestedFrame s1, s1))"

text \<open>The steps of \<^verbatim>\<open>cacheFrame\<close> after its two early returns, in the order of the source:
  a new locked mutex is put into \<^verbatim>\<open>cachingFramesMutices\<close>; the frame is loaded; a non-null
  image is inserted into the cache; the mutex is unlocked; the entry is taken out of
  \<^verbatim>\<open>cachingFramesMutices\<close> (and the mutex deleted); \<^verbatim>\<open>cachingTimerStart\<close> is emitted.\<close>

definition cacheFrame_register :: "int \<Rightarrow> videoHandler \<Rightarrow> videoHandler" where
  "cacheFrame_register frameIdx s =
     s\<lparr>cachingFramesMutices := (cachingFramesMutices s)(frameIdx \<mapsto> True)\<rparr>"

definition cacheFrame_insert :: "int \<Rightarrow> QImage \<Rightarrow> videoHandler \<Rightarrow> videoHandler" where
  "cacheFrame_insert frameIdx cacheImage s =
     (if \<not> isNull cacheImage
      then s\<lparr>imageCache := (imageCache s)(frameIdx \<mapsto> cacheImage)\<rparr>
      else s)"

definition cacheFrame_unlock :: "int \<Rightarrow> videoHandler \<Rightarrow> videoHandler" where
  "cacheFrame_unlock frameIdx s =
     s\<lparr>cachingFramesMutices := (cachingFramesMutices s)(frameIdx \<mapsto> False)\<rparr>"

definition cacheFrame_take :: "int \<Rightarrow> videoHandler \<Rightarrow> videoHandler" where
  "cacheFrame_take frameIdx s =
     s\<lparr>cachingFramesMutices := (cachingFramesMutices s)(frameIdx := None)\<rparr>"

definition cacheFrame :: "producer \<Rightarrow> int \<Rightarrow> int \<Rightarrow> videoHandler \<Rightarrow> videoHandler" where
  "cacheFrame P qid frameIdx s =
     (if isInCache frameIdx s then s
      else if cachingFramesMutices s frameIdx \<noteq> None then s
      else
        (let s1 = cacheFrame_register frameIdx s;
             r = loadFrameForCaching P frameIdx s1;
             cacheImage = fst r;
             s2 = cacheFrame_insert frameIdx cacheImage (snd r);
             s3 = cacheFrame_unlock frameIdx s2;
             s4 = cacheFrame_take frameIdx s3
         in emit_cachingTimerStart qid s4))"

text \<open>Modelled from the spec: \<^verbatim>\<open>frameHandler::drawPixelValues\<close>, a member of the base class, is
  not in this file; the spec describes the call as a delegation to the external pixel-value
  overlay, so it is recorded as the event \<open>drawPixelValues\<close> and changes nothing else.
  \<open>drawFrame_paint\<close> is the end of \<^verbatim>\<open>drawFrame\<close>, from the assignment of
  \<^verbatim>\<open>loadingInBackground\<close> on.\<close>

definition drawFrame_paint :: "int \<Rightarrow> real \<Rightarrow> videoHandler \<Rightarrow> videoHandler" where
  "drawFrame_paint frameIdx zoomFactor s =
     (let s1 = s\<lparr>loadingInBackground := (currentImageIdx s \<noteq> frameIdx)\<rparr>;
          s2 = emit (drawImage (frameSize s1) zoomFactor (currentImage s1)) s1
      in if zoomFactor \<ge> 64 then emit (drawPixelValues frameIdx zoomFactor) s2 else s2)"

text \<open>\<^verbatim>\<open>drawFrame\<close>. When the frame is registered in \<^verbatim>\<open>cachingFramesMutices\<close> the function
  locks the registered mutex and unlocks it again: with the mutex free this leaves it free, with
  the mutex locked the call waits for another thread, and run alone it never returns
  (\<open>None\<close>).\<close>

definition drawFrame :: "producer \<Rightarrow> int \<Rightarrow> real \<Rightarrow> videoHandler \<Rightarrow> videoHandler option" where
  "drawFrame P frameIdx zoomFactor s =
     (if frameIdx \<noteq> currentImageIdx s then
        (let r = makeCachedFrameCurrent frameIdx s
         in if \<not> fst r then
              (case cachingFramesMutices (snd r) frameIdx of
                 Some locked \<Rightarrow>
                   if locked then None
                   else Some (drawFrame_paint frameIdx zoomFactor
                                (snd (makeCachedFrameCurrent frameIdx (snd r))))
               | None \<Rightarrow> Some (drawFrame_paint frameIdx zoomFactor (loadFrame P frameIdx (snd r))))
            else Some (drawFrame_paint frameIdx zoomFactor (snd r)))
      else Some (drawFrame_paint frameIdx zoomFactor s))"

text \<open>\<^verbatim>\<open>slotVideoControlChanged\<close> first calls the slot of the base class, which is not in this
  file: \<open>base_slot\<close> stands for it.\<close>

definition slotVideoControlChanged :: "(videoHandler \<Rightarrow> videoHandler) \<Rightarrow> videoHandler \<Rightarrow> videoHandler" where
  "slotVideoControlChanged base_slot s =
     (let s1 = base_slot s;
          s2 = emit signalUpdateFrameLimits s1;
          s3 = s2\<lparr>currentImageIdx := -1\<rparr>;
          s4 = clearCache s3
      in emit (signalHandlerChanged True True) s4)"

text \<open>\<^verbatim>\<open>timerEvent\<close> receives the id of the timer that ran out; an event of another timer goes
  to the base class (\<open>base_timerEvent\<close>, not in this file).\<close>

definition timerEvent :: "(int \<Rightarrow> videoHandler \<Rightarrow> videoHandler) \<Rightarrow> int \<Rightarrow> videoHandler \<Rightarrow> videoHandler" where
  "timerEvent base_timerEvent event_timerId s =
     (if event_timerId \<noteq> cachingTimer s then base_timerEvent event_timerId s
      else emit (signalHandlerChanged False False)
             (s\<lparr>cachingTimer := QBasicTimer_stop (cachingTimer s)\<rparr>))"

section \<open>Sequences of calls\<close>

text \<open>A call of \<^verbatim>\<open>cacheFrame\<close> succeeds when it gets past both early returns and the producer
  answers the request with a non-null image for the requested index. \<open>cacheFrames\<close> runs a
  sequence of calls, each with its producer and with the id that Qt would give to a timer
  started in that call (Qt's timer ids are not 0). \<open>producer_ready\<close> always delivers,
  \<open>producer_deferring\<close> leaves the buffer as it is, \<open>producer_changed\<close> delivers other
  pixels than \<open>producer_ready\<close>, as a producer does whose parameters have been changed.\<close>

definition cacheFrame_succeeds :: "producer \<Rightarrow> int \<Rightarrow> videoHandler \<Rightarrow> bool" where
  "cacheFrame_succeeds P frameIdx s =
     (\<not> isInCache frameIdx s \<and> cachingFramesMutices s frameIdx = None
      \<and> snd (P frameIdx True (requestedFrame s, requestedFrame_idx s)) = frameIdx
      \<and> \<not> isNull (fst (P frameIdx True (requestedFrame s, requestedFrame_idx s))))"

fun cacheFrames :: "(producer \<times> int \<times> int) list \<Rightarrow> videoHandler \<Rightarrow> videoHandler" where
  "cacheFrames [] s = s"
| "cacheFrames ((P, qid, frameIdx) # cs) s = cacheFrames cs (cacheFrame P qid frameIdx s)"

fun all_succeed :: "(producer \<times> int \<times> int) list \<Rightarrow> videoHandler \<Rightarrow> bool" where
  "all_succeed [] s = True"
| "all_succeed ((P, qid, frameIdx) # cs) s =
     (cacheFrame_succeeds P frameIdx s \<and> qid \<noteq> 0 \<and> all_succeed cs (cacheFrame P qid frameIdx s))"

definition producer_ready :: producer where
  "producer_ready i caching buf = (QImage_pixels [nat i], i)"

definition producer_deferring :: producer where
  "producer_deferring i caching buf = buf"

definition producer_changed :: producer where
  "producer_changed i caching buf = (QImage_pixels [nat i, 1], i)"

definition handlerChanged_events :: "event list \<Rightarrow> event list" where
  "handlerChanged_events es = filter (\<lambda>e. case e of signalHandlerChanged r c \<Rightarrow> True | _ \<Rightarrow> False) es"

section \<open>Interleaving model of the renderer and the caching workers\<close>

text \<open>
  One renderer thread runs \<^verbatim>\<open>drawFrame\<close>, any number of worker threads run \<^verbatim>\<open>cacheFrame\<close>. A
  thread is at a program point and carries its local variables; a step of a thread runs the
  code from its program point to the next point where it can be interleaved. The points are the
  places where the code acquires \<^verbatim>\<open>cachingFramesMuticesAccess\<close>, \<^verbatim>\<open>requestDataMutex\<close> or a
  registered frame mutex, and the places between two blocks that run under different mutexes.
  A block under \<^verbatim>\<open>imageCacheAccess\<close> acquires no other mutex, so it is one step. A step that
  has to acquire a locked mutex is not enabled (\<open>None\<close>). The renderer at line 83 reads the
  entry it has just found under \<^verbatim>\<open>cachingFramesMuticesAccess\<close>; the step has no successor should
  the entry be missing, which the invariant below excludes. The slot of \<^verbatim>\<open>cachingTimerStart\<close> is
  run at the emission, also where Qt would queue it for the thread of the handler.

  The model has no thread that removes frames from the cache: the renderer and the workers only
  run the two functions named.
\<close>

datatype worker =
    W_idle
  | W_isInCache int          \<comment> \<open>line 162\<close>
  | W_register int           \<comment> \<open>lines 170 to 180\<close>
  | W_lockRequest int        \<comment> \<open>line 285\<close>
  | W_request int            \<comment> \<open>lines 288 to 294, \<^verbatim>\<open>requestDataMutex\<close> held\<close>
  | W_insert int QImage      \<comment> \<open>lines 187 to 192\<close>
  | W_unlock int QImage      \<comment> \<open>line 195\<close>
  | W_take int QImage        \<comment> \<open>lines 196 to 199\<close>
  | W_notify int QImage      \<comment> \<open>line 203\<close>

datatype renderer =
    R_idle
  | R_test int real          \<comment> \<open>line 70\<close>
  | R_cached int real        \<comment> \<open>line 74\<close>
  | R_contains int real      \<comment> \<open>lines 77 and 78\<close>
  | R_wait int real          \<comment> \<open>line 83, \<^verbatim>\<open>cachingFramesMuticesAccess\<close> held\<close>
  | R_release int real       \<comment> \<open>lines 84 and 85\<close>
  | R_recheck int real       \<comment> \<open>line 88\<close>
  | R_loadTest int real      \<comment> \<open>line 263\<close>
  | R_lockRequest int real   \<comment> \<open>line 266\<close>
  | R_request int real       \<comment> \<open>lines 269 to 273, \<^verbatim>\<open>requestDataMutex\<close> held\<close>
  | R_promote int real       \<comment> \<open>lines 277 and 278\<close>
  | R_paint int real         \<comment> \<open>lines 99 to 113\<close>

record system =
  handler :: videoHandler
  cachingFramesMuticesAccess :: bool
  requestDataMutex :: bool
  render_thread :: renderer
  worker_threads :: "nat \<Rightarrow> worker"

definition set_worker :: "nat \<Rightarrow> worker \<Rightarrow> system \<Rightarrow> system" where
  "set_worker w pc s = s\<lparr>worker_threads := (worker_threads s)(w := pc)\<rparr>"

fun worker_step :: "producer \<Rightarrow> int \<Rightarrow> nat \<Rightarrow> worker \<Rightarrow> system \<Rightarrow> system option" where
  "worker_step P qid w W_idle s = None"
| "worker_step P qid w (W_isInCache i) s =
     (if isInCache i (handler s) then Some (set_worker w W_idle s)
      else Some (set_worker w (W_register i) s))"
| "worker_step P qid w (W_register i) s =
     (if cachingFramesMuticesAccess s then None
      else if cachingFramesMutices (handler s) i \<noteq> None then Some (set_worker w W_idle s)
      else Some (set_worker w (W_lockRequest i)
                   (s\<lparr>handler := cacheFrame_register i (handler s)\<rparr>)))"
| "worker_step P qid w (W_lockRequest i) s =
     (if requestDataMutex s then None
      else Some (set_worker w (W_request i) (s\<lparr>requestDataMutex := True\<rparr>)))"
| "worker_step P qid w (W_request i) s =
     (let r = loadFrameForCaching P i (handler s)
      in Some (set_worker w (W_insert i (fst r))
                 (s\<lparr>handler := snd r, requestDataMutex := False\<rparr>)))"
| "worker_step P qid w (W_insert i cacheImage) s =
     Some (set_worker w (W_unlock i cacheImage)
             (s\<lparr>handler := cacheFrame_insert i cacheImage (handler s)\<rparr>))"
| "worker_step P qid w (W_unlock i cacheImage) s =
     Some (set_worker w (W_take i cacheImage)
             (s\<lparr>handler := cacheFrame_unlock i (handler s)\<rparr>))"
| "worker_step P qid w (W_take i cacheImage) s =
     (if cachingFramesMuticesAccess s then None
      else Some (set_worker w (W_notify i cacheImage)
                   (s\<lparr>handler := cacheFrame_take i (handler s)\<rparr>)))"
| "worker_step P qid w (W_notify i cacheImage) s =
     Some (set_worker w W_idle (s\<lparr>handler := emit_cachingTimerStart qid (handler s)\<rparr>))"

fun renderer_step :: "producer \<Rightarrow> renderer \<Rightarrow> system \<Rightarrow> system option" where
  "renderer_step P R_idle s = None"
| "renderer_step P (R_test j z) s =
     (if j \<noteq> currentImageIdx (handler s) then Some (s\<lparr>render_thread := R_cached j z\<rparr>)
      else Some (s\<lparr>render_thread := R_paint j z\<rparr>))"
| "renderer_step P (R_cached j z) s =
     (let r = makeCachedFrameCurrent j (handler s)
      in if \<not> fst r then Some (s\<lparr>handler := snd r, render_thread := R_contains j z\<rparr>)
         else Some (s\<lparr>handler := snd r, render_thread := R_paint j z\<rparr>))"
| "renderer_step P (R_contains j z) s =
     (if cachingFramesMuticesAccess s then None
      else if cachingFramesMutices (handler s) j \<noteq> None
           then Some (s\<lparr>cachingFramesMuticesAccess := True, render_thread := R_wait j z\<rparr>)
           else Some (s\<lparr>render_thread := R_loadTest j z\<rparr>))"
| "renderer_step P (R_wait j z) s =
     (case cachingFramesMutices (handler s) j of
        Some locked \<Rightarrow>
          if locked then None
          else Some (s\<lparr>handler := (handler s)\<lparr>cachingFramesMutices :=
                                      (cachingFramesMutices (handler s))(j \<mapsto> True)\<rparr>,
                      render_thread := R_release j z\<rparr>)
      | None \<Rightarrow> None)"
| "renderer_step P (R_release j z) s =
     Some (s\<lparr>handler := (handler s)\<lparr>cachingFramesMutices :=
                             (cachingFramesMutices (handler s))(j \<mapsto> False)\<rparr>,
             cachingFramesMuticesAccess := False,
             render_thread := R_recheck j z\<rparr>)"
| "renderer_step P (R_recheck j z) s =
     Some (s\<lparr>handler := snd (makeCachedFrameCurrent j (handler s)),
             render_thread := R_paint j z\<rparr>)"
| "renderer_step P (R_loadTest j z) s =
     (if requestedFrame_idx (handler s) \<noteq> j then Some (s\<lparr>render_thread := R_lockRequest j z\<rparr>)
      else Some (s\<lparr>render_thread := R_promote j z\<rparr>))"
| "renderer_step P (R_lockRequest j z) s =
     (if requestDataMutex s then None
      else Some (s\<lparr>requestDataMutex := True, render_thread := R_request j z\<rparr>))"
| "renderer_step P (R_request j z) s =
     (let h = emit_signalRequestFrame P j False (handler s)
      in if requestedFrame_idx h \<noteq> j
         then Some (s\<lparr>handler := h, requestDataMutex := False, render_thread := R_paint j z\<rparr>)
         else Some (s\<lparr>handler := h, requestDataMutex := False, render_thread := R_promote j z\<rparr>))"
| "renderer_step P (R_promote j z) s =
     Some (s\<lparr>handler := loadFrame_promote j (handler s), render_thread := R_paint j z\<rparr>)"
| "renderer_step P (R_paint j z) s =
     Some (s\<lparr>handler := drawFrame_paint j z (handler s), render_thread := R_idle\<rparr>)"

datatype action =
    Call_drawFrame int real
  | Step_renderer
  | Call_cacheFrame nat int
  | Step_worker nat

fun step :: "producer \<Rightarrow> int \<Rightarrow> action \<Rightarrow> system \<Rightarrow> system option" where
  "step P qid (Call_drawFrame j z) s =
     (if render_thread s = R_idle then Some (s\<lparr>render_thread := R_test j z\<rparr>) else None)"
| "step P qid Step_renderer s = renderer_step P (render_thread s) s"
| "step P qid (Call_cacheFrame w i) s =
     (if worker_threads s w = W_idle then Some (set_worker w (W_isInCache i) s) else None)"
| "step P qid (Step_worker w) s = worker_step P qid w (worker_threads s w) s"

fun run :: "producer \<Rightarrow> int \<Rightarrow> action list \<Rightarrow> system \<Rightarrow> system option" where
  "run P qid [] s = Some s"
| "run P qid (a # as) s = (case step P qid a s of None \<Rightarrow> None | Some s' \<Rightarrow> run P qid as s')"

text \<open>A run starts with all threads idle, the member mutexes free and nothing registered; the
  handler is otherwise arbitrary. Each step may meet another producer and another timer id.
  \<open>run\<close> executes a given schedule; \<open>reachable\<close> are the states that some schedule leads to,
  \<open>steps s\<close> the states that some schedule leads to from \<open>s\<close>.\<close>

definition initial :: "system \<Rightarrow> bool" where
  "initial s =
     (cachingFramesMutices (handler s) = Map.empty
      \<and> \<not> cachingFramesMuticesAccess s \<and> \<not> requestDataMutex s
      \<and> render_thread s = R_idle \<and> worker_threads s = (\<lambda>w. W_idle))"

inductive reachable :: "system \<Rightarrow> bool" where
  reachable_initial: "initial s \<Longrightarrow> reachable s"
| reachable_step: "reachable s \<Longrightarrow> step P qid a s = Some s' \<Longrightarrow> reachable s'"

inductive steps :: "system \<Rightarrow> system \<Rightarrow> bool" for s :: system where
  steps_refl: "steps s s"
| steps_step: "steps s s' \<Longrightarrow> step P qid a s' = Some s'' \<Longrightarrow> steps s s''"

definition system_new :: "videoHandler \<Rightarrow> system" where
  "system_new h =
     \<lparr> handler = h, cachingFramesMuticesAccess = False, requestDataMutex = False,
       render_thread = R_idle, worker_threads = (\<lambda>w. W_idle) \<rparr>"

text \<open>What a thread at a program point holds: the entry of \<^verbatim>\<open>cachingFramesMutices\<close> it has put
  in and not yet taken out, the frame mutex it has locked and not yet unlocked, whether it is
  inside a request, and the image it has passed to the insertion while its entry is still
  registered. The invariant relates these to the shared state.\<close>

fun owns :: "worker \<Rightarrow> int option" where
  "owns (W_lockRequest i) = Some i"
| "owns (W_request i) = Some i"
| "owns (W_insert i c) = Some i"
| "owns (W_unlock i c) = Some i"
| "owns (W_take i c) = Some i"
| "owns W_idle = None"
| "owns (W_isInCache i) = None"
| "owns (W_register i) = None"
| "owns (W_notify i c) = None"

fun holds_frameMutex :: "worker \<Rightarrow> bool" where
  "holds_frameMutex (W_lockRequest i) = True"
| "holds_frameMutex (W_request i) = True"
| "holds_frameMutex (W_insert i c) = True"
| "holds_frameMutex (W_unlock i c) = True"
| "holds_frameMutex (W_take i c) = False"
| "holds_frameMutex W_idle = False"
| "holds_frameMutex (W_isInCache i) = False"
| "holds_frameMutex (W_register i) = False"
| "holds_frameMutex (W_notify i c) = False"

fun worker_requesting :: "worker \<Rightarrow> bool" where
  "worker_requesting (W_request i) = True"
| "worker_requesting W_idle = False"
| "worker_requesting (W_isInCache i) = False"
| "worker_requesting (W_register i) = False"
| "worker_requesting (W_lockRequest i) = False"
| "worker_requesting (W_insert i c) = False"
| "worker_requesting (W_unlock i c) = False"
| "worker_requesting (W_take i c) = False"
| "worker_requesting (W_notify i c) = False"

fun renderer_requesting :: "renderer \<Rightarrow> bool" where
  "renderer_requesting (R_request j z) = True"
| "renderer_requesting R_idle = False"
| "renderer_requesting (R_test j z) = False"
| "renderer_requesting (R_cached j z) = False"
| "renderer_requesting (R_contains j z) = False"
| "renderer_requesting (R_wait j z) = False"
| "renderer_requesting (R_release j z) = False"
| "renderer_requesting (R_recheck j z) = False"
| "renderer_requesting (R_loadTest j z) = False"
| "renderer_requesting (R_lockRequest j z) = False"
| "renderer_requesting (R_promote j z) = False"
| "renderer_requesting (R_paint j z) = False"

fun renderer_waiting :: "renderer \<Rightarrow> int option" where
  "renderer_waiting (R_wait j z) = Some j"
| "renderer_waiting R_idle = None"
| "renderer_waiting (R_test j z) = None"
| "renderer_waiting (R_cached j z) = None"
| "renderer_waiting (R_contains j z) = None"
| "renderer_waiting (R_release j z) = None"
| "renderer_waiting (R_recheck j z) = None"
| "renderer_waiting (R_loadTest j z) = None"
| "renderer_waiting (R_lockRequest j z) = None"
| "renderer_waiting (R_request j z) = None"
| "renderer_waiting (R_promote j z) = None"
| "renderer_waiting (R_paint j z) = None"

fun renderer_holding :: "renderer \<Rightarrow> int option" where
  "renderer_holding (R_release j z) = Some j"
| "renderer_holding R_idle = None"
| "renderer_holding (R_test j z) = None"
| "renderer_holding (R_cached j z) = None"
| "renderer_holding (R_contains j z) = None"
| "renderer_holding (R_wait j z) = None"
| "renderer_holding (R_recheck j z) = None"
| "renderer_holding (R_loadTest j z) = None"
| "renderer_holding (R_lockRequest j z) = None"
| "renderer_holding (R_request j z) = None"
| "renderer_holding (R_promote j z) = None"
| "renderer_holding (R_paint j z) = None"

fun inserted :: "worker \<Rightarrow> (int \<times> QImage) option" where
  "inserted (W_unlock i c) = Some (i, c)"
| "inserted (W_take i c) = Some (i, c)"
| "inserted W_idle = None"
| "inserted (W_isInCache i) = None"
| "inserted (W_register i) = None"
| "inserted (W_lockRequest i) = None"
| "inserted (W_request i) = None"
| "inserted (W_insert i c) = None"
| "inserted (W_notify i c) = None"

definition inv_access :: "system \<Rightarrow> bool" where
  "inv_access s =
     (cachingFramesMuticesAccess s =
        (renderer_waiting (render_thread s) \<noteq> None \<or> renderer_holding (render_thread s) \<noteq> None))"

definition inv_request :: "system \<Rightarrow> bool" where
  "inv_request s =
     ((requestDataMutex s =
        (renderer_requesting (render_thread s) \<or> (\<exists>w. worker_requesting (worker_threads s w))))
      \<and> (renderer_requesting (render_thread s) \<longrightarrow> (\<forall>w. \<not> worker_requesting (worker_threads s w)))
      \<and> (\<forall>w w'. worker_requesting (worker_threads s w) \<longrightarrow> worker_requesting (worker_threads s w')
             \<longrightarrow> w = w'))"

definition inv_owner :: "system \<Rightarrow> bool" where
  "inv_owner s =
     ((\<forall>w i. owns (worker_threads s w) = Some i \<longrightarrow>
          cachingFramesMutices (handler s) i =
            Some (holds_frameMutex (worker_threads s w) \<or> renderer_holding (render_thread s) = Some i))
      \<and> (\<forall>w w' i. owns (worker_threads s w) = Some i \<longrightarrow> owns (worker_threads s w') = Some i
             \<longrightarrow> w = w')
      \<and> (\<forall>i. cachingFramesMutices (handler s) i \<noteq> None \<longrightarrow>
             (\<exists>w. owns (worker_threads s w) = Some i)))"

definition inv_waiter :: "system \<Rightarrow> bool" where
  "inv_waiter s =
     ((\<forall>j. renderer_waiting (render_thread s) = Some j \<longrightarrow>
          cachingFramesMutices (handler s) j \<noteq> None)
      \<and> (\<forall>j. renderer_holding (render_thread s) = Some j \<longrightarrow>
          (\<exists>w. owns (worker_threads s w) = Some j \<and> \<not> holds_frameMutex (worker_threads s w))))"

definition inv_inserted :: "system \<Rightarrow> bool" where
  "inv_inserted s =
     (\<forall>w i c. inserted (worker_threads s w) = Some (i, c) \<longrightarrow> \<not> isNull c \<longrightarrow>
         imageCache (handler s) i = Some c)"

definition inv :: "system \<Rightarrow> bool" where
  "inv s = (inv_access s \<and> inv_request s \<and> inv_owner s \<and> inv_waiter s \<and> inv_inserted s)"

text \<open>Schedules used as examples, all started from a new handler.\<close>

definition state_after :: "producer \<Rightarrow> action list \<Rightarrow> system" where
  "state_after P acts = the (run P 1 acts (system_new (videoHandler_new (4, 4) (-1))))"

definition schedule_wait :: "action list" where
  "schedule_wait =
     [Call_cacheFrame 0 9, Step_worker 0, Step_worker 0, Step_worker 0,
      Call_drawFrame 9 1, Step_renderer, Step_renderer, Step_renderer]"

definition schedule_current :: "action list" where
  "schedule_current =
     [Call_drawFrame 9 1, Step_renderer, Step_renderer, Step_renderer, Step_renderer,
      Step_renderer, Step_renderer, Step_renderer, Step_renderer,
      Call_cacheFrame 0 9, Step_worker 0, Step_worker 0, Step_worker 0]"

definition schedule_decoding :: "action list" where
  "schedule_decoding = [Call_cacheFrame 0 9, Step_worker 0, Step_worker 0, Step_worker 0]"

definition schedule_race_mid :: "action list" where
  "schedule_race_mid =
     schedule_decoding @
     [Call_drawFrame 9 1, Step_renderer, Step_renderer,
      Step_worker 0, Step_worker 0, Step_worker 0, Step_worker 0, Step_worker 0,
      Call_cacheFrame 1 10, Step_worker 1, Step_worker 1, Step_worker 1, Step_worker 1]"

definition schedule_race :: "action list" where
  "schedule_race =
     schedule_race_mid @
     [Step_renderer, Step_renderer, Step_renderer, Step_renderer, Step_renderer, Step_renderer]"

definition schedule_twice_mid :: "action list" where
  "schedule_twice_mid =
     schedule_decoding @
     [Call_cacheFrame 1 9, Step_worker 1,
      Step_worker 0, Step_worker 0, Step_worker 0, Step_worker 0, Step_worker 0]"

definition schedule_twice :: "action list" where
  "schedule_twice =
     schedule_twice_mid @
     [Step_worker 1, Step_worker 1, Step_worker 1, Step_worker 1, Step_worker 1, Step_worker 1,
      Step_worker 1]"

definition schedule_contains :: "action list" where
  "schedule_contains =
     [Call_cacheFrame 0 9, Step_worker 0, Step_worker 0, Step_worker 0,
      Call_drawFrame 9 1, Step_renderer, Step_renderer]"

definition schedule_request :: "action list" where
  "schedule_request =
     [Call_cacheFrame 0 9, Step_worker 0, Step_worker 0,
      Call_drawFrame 7 1, Step_renderer, Step_renderer, Step_renderer, Step_renderer,
      Step_renderer]"

section \<open>Invalidation\<close>

text \<open>
  C3. After \<^verbatim>\<open>invalidateAllBuffers\<close>, from any handler state: the frame cache is empty, the
  current-frame slot holds the null image and index -1, \<^verbatim>\<open>requestedFrame_idx\<close> is -1, and
  \<^verbatim>\<open>signalUpdateFrameLimits\<close> has been emitted (it is the one event the call adds).
\<close>

theorem invalidateAllBuffers_post:
  "imageCache (invalidateAllBuffers s) = Map.empty
   \<and> currentImage (invalidateAllBuffers s) = QImage_null
   \<and> isNull (currentImage (invalidateAllBuffers s))
   \<and> currentImageIdx (invalidateAllBuffers s) = -1
   \<and> requestedFrame_idx (invalidateAllBuffers s) = -1
   \<and> events (invalidateAllBuffers s) = events s @ [signalUpdateFrameLimits]"
  by (simp add: invalidateAllBuffers_def clearCache_def emit_def Let_def)

text \<open>What \<^verbatim>\<open>slotVideoControlChanged\<close> does after the slot of the base class: it emits
  \<^verbatim>\<open>signalUpdateFrameLimits\<close>, sets \<^verbatim>\<open>currentImageIdx\<close> to -1, clears the frame cache and emits
  \<^verbatim>\<open>signalHandlerChanged(true, true)\<close>.\<close>

lemma slotVideoControlChanged_eq:
  "slotVideoControlChanged base_slot s =
     (base_slot s)\<lparr>currentImageIdx := -1, imageCache := Map.empty,
        events := events (base_slot s) @ [signalUpdateFrameLimits, signalHandlerChanged True True]\<rparr>"
  by (simp add: slotVideoControlChanged_def clearCache_def emit_def Let_def)

text \<open>
  C2 does not hold of the code. Whatever the slot of the base class does,
  \<^verbatim>\<open>slotVideoControlChanged\<close> itself leaves the current image, \<^verbatim>\<open>currentImage_frameIndex\<close>, the
  shared buffer and \<^verbatim>\<open>requestedFrame_idx\<close> as that slot left them, where
  \<^verbatim>\<open>invalidateAllBuffers\<close> resets them under the same comment. So a \<^verbatim>\<open>loadFrame\<close> for the frame
  that the buffer still names makes the old buffer the current frame, without a request.
\<close>

theorem slotVideoControlChanged_keeps_buffer:
  "currentImage (slotVideoControlChanged base_slot s) = currentImage (base_slot s)
   \<and> currentImage_frameIndex (slotVideoControlChanged base_slot s)
       = currentImage_frameIndex (base_slot s)
   \<and> requestedFrame (slotVideoControlChanged base_slot s) = requestedFrame (base_slot s)
   \<and> requestedFrame_idx (slotVideoControlChanged base_slot s) = requestedFrame_idx (base_slot s)
   \<and> loadFrame P (requestedFrame_idx (base_slot s)) (slotVideoControlChanged base_slot s)
       = (slotVideoControlChanged base_slot s)
           \<lparr>currentImage := requestedFrame (base_slot s),
            currentImageIdx := requestedFrame_idx (base_slot s)\<rparr>"
  by (simp add: slotVideoControlChanged_def clearCache_def emit_def Let_def loadFrame_def
      loadFrame_promote_def)

text \<open>
  C2 at a handler that the code reaches: a new handler draws frame 3, which the producer
  delivers. After \<^verbatim>\<open>slotVideoControlChanged\<close> (the base slot changes nothing here) the current image
  is still frame 3 and \<^verbatim>\<open>requestedFrame_idx\<close> is still 3, where \<^verbatim>\<open>invalidateAllBuffers\<close> gives the
  null image and -1. The next \<^verbatim>\<open>drawFrame(3)\<close>, with a producer that would now deliver other
  pixels, shows the old image and issues no request.
\<close>

theorem slotVideoControlChanged_keeps_buffer_witness:
  "drawFrame producer_ready 3 1 (videoHandler_new (4, 4) (-1)) \<noteq> None
   \<and> currentImage (the (drawFrame producer_ready 3 1 (videoHandler_new (4, 4) (-1))))
       = QImage_pixels [3]
   \<and> requestedFrame_idx (the (drawFrame producer_ready 3 1 (videoHandler_new (4, 4) (-1)))) = 3
   \<and> currentImage (slotVideoControlChanged (\<lambda>s. s)
         (the (drawFrame producer_ready 3 1 (videoHandler_new (4, 4) (-1))))) = QImage_pixels [3]
   \<and> requestedFrame_idx (slotVideoControlChanged (\<lambda>s. s)
         (the (drawFrame producer_ready 3 1 (videoHandler_new (4, 4) (-1))))) = 3
   \<and> currentImage (invalidateAllBuffers
         (the (drawFrame producer_ready 3 1 (videoHandler_new (4, 4) (-1))))) = QImage_null
   \<and> requestedFrame_idx (invalidateAllBuffers
         (the (drawFrame producer_ready 3 1 (videoHandler_new (4, 4) (-1))))) = -1
   \<and> fst (producer_changed 3 False (QImage_pixels [3], 3)) = QImage_pixels [3, 1]
   \<and> currentImage (the (drawFrame producer_changed 3 1
         (slotVideoControlChanged (\<lambda>s. s)
            (the (drawFrame producer_ready 3 1 (videoHandler_new (4, 4) (-1)))))))
       = QImage_pixels [3]
   \<and> events (the (drawFrame producer_changed 3 1
         (slotVideoControlChanged (\<lambda>s. s)
            (the (drawFrame producer_ready 3 1 (videoHandler_new (4, 4) (-1)))))))
       = [signalRequestFrame 3 False, drawImage (4, 4) 1 (QImage_pixels [3]),
          signalUpdateFrameLimits, signalHandlerChanged True True,
          drawImage (4, 4) 1 (QImage_pixels [3])]"
  using slotVideoControlChanged_keeps_buffer[of "\<lambda>s. s"
      "the (drawFrame producer_ready 3 1 (videoHandler_new (4, 4) (-1)))" producer_changed]
  by (simp add: drawFrame_def makeCachedFrameCurrent_def loadFrame_def loadFrame_promote_def
      drawFrame_paint_def emit_signalRequestFrame_def emit_def Let_def videoHandler_new_def
      producer_ready_def producer_changed_def slotVideoControlChanged_def clearCache_def
      invalidateAllBuffers_def)

section \<open>Foreground loading\<close>

text \<open>
  C5. When \<^verbatim>\<open>loadFrame(i)\<close> has to request the frame and \<^verbatim>\<open>requestedFrame_idx\<close> still differs
  from \<open>i\<close> after the request, \<^verbatim>\<open>loadFrame\<close> returns with the current image and its index
  unchanged. A \<^verbatim>\<open>drawFrame(i)\<close> that reaches this load (the frame is not the current one, not
  in the cache and not registered as being cached) returns with \<^verbatim>\<open>loadingInBackground\<close> true and
  the current-frame slot unchanged.
\<close>

theorem loadFrame_deferred:
  assumes "requestedFrame_idx s \<noteq> i"
    and "requestedFrame_idx (emit_signalRequestFrame P i False s) \<noteq> i"
  shows "currentImage (loadFrame P i s) = currentImage s
       \<and> currentImageIdx (loadFrame P i s) = currentImageIdx s
       \<and> events (loadFrame P i s) = events s @ [signalRequestFrame i False]
       \<and> (currentImageIdx s \<noteq> i \<and> imageCache s i = None \<and> cachingFramesMutices s i = None \<longrightarrow>
            (\<exists>s'. drawFrame P i z s = Some s' \<and> loadingInBackground s'
                 \<and> currentImage s' = currentImage s \<and> currentImageIdx s' = currentImageIdx s))"
  using assms
  by (simp add: loadFrame_def drawFrame_def makeCachedFrameCurrent_def drawFrame_paint_def
      emit_signalRequestFrame_def emit_def Let_def)

text \<open>C5 at a new handler, frame 3, and a producer that leaves the buffer as it is.\<close>

theorem loadFrame_deferred_witness:
  "requestedFrame_idx (videoHandler_new (4, 4) (-1)) \<noteq> 3
   \<and> requestedFrame_idx (emit_signalRequestFrame producer_deferring 3 False
         (videoHandler_new (4, 4) (-1))) \<noteq> 3
   \<and> currentImageIdx (videoHandler_new (4, 4) (-1)) \<noteq> 3
   \<and> imageCache (videoHandler_new (4, 4) (-1)) 3 = None
   \<and> cachingFramesMutices (videoHandler_new (4, 4) (-1)) 3 = None
   \<and> currentImageIdx (loadFrame producer_deferring 3 (videoHandler_new (4, 4) (-1))) = -1
   \<and> currentImage (loadFrame producer_deferring 3 (videoHandler_new (4, 4) (-1))) = QImage_null
   \<and> (\<exists>s'. drawFrame producer_deferring 3 1 (videoHandler_new (4, 4) (-1)) = Some s'
          \<and> loadingInBackground s' \<and> currentImageIdx s' = -1)"
  using loadFrame_deferred[of "videoHandler_new (4, 4) (-1)" 3 producer_deferring 1]
  by (auto simp: videoHandler_new_def producer_deferring_def emit_signalRequestFrame_def
      emit_def Let_def)

section \<open>Removal from the cache\<close>

text \<open>
  C6. For every index \<open>i \<ge> 0\<close>, after \<^verbatim>\<open>removefromCache(i)\<close> the frame \<open>i\<close> is not in the cache
  and every other entry of the cache is unchanged; \<^verbatim>\<open>removefromCache(-1)\<close> leaves the cache empty.
\<close>

theorem removefromCache_post:
  "(0 \<le> i \<longrightarrow> \<not> isInCache i (removefromCache qid i s)
        \<and> (\<forall>j. j \<noteq> i \<longrightarrow> imageCache (removefromCache qid i s) j = imageCache s j))
   \<and> imageCache (removefromCache qid (-1) s) = Map.empty"
  by (simp add: removefromCache_def isInCache_def emit_cachingTimerStart_def
      cachingTimerStart_slot_def emit_def Let_def)

text \<open>C6 at a cache that holds the frames 5 and 2.\<close>

theorem removefromCache_post_witness:
  "(0::int) \<le> 5 \<and> (2::int) \<noteq> 5
   \<and> isInCache 5 ((videoHandler_new (4, 4) (-1))
         \<lparr>imageCache := [5 \<mapsto> QImage_pixels [5], 2 \<mapsto> QImage_pixels [2]]\<rparr>)
   \<and> \<not> isInCache 5 (removefromCache 1 5 ((videoHandler_new (4, 4) (-1))
         \<lparr>imageCache := [5 \<mapsto> QImage_pixels [5], 2 \<mapsto> QImage_pixels [2]]\<rparr>))
   \<and> imageCache (removefromCache 1 5 ((videoHandler_new (4, 4) (-1))
         \<lparr>imageCache := [5 \<mapsto> QImage_pixels [5], 2 \<mapsto> QImage_pixels [2]]\<rparr>)) 2
       = Some (QImage_pixels [2])
   \<and> imageCache (removefromCache 1 (-1) ((videoHandler_new (4, 4) (-1))
         \<lparr>imageCache := [5 \<mapsto> QImage_pixels [5], 2 \<mapsto> QImage_pixels [2]]\<rparr>)) = Map.empty"
  using removefromCache_post[of 5 1 "(videoHandler_new (4, 4) (-1))
         \<lparr>imageCache := [5 \<mapsto> QImage_pixels [5], 2 \<mapsto> QImage_pixels [2]]\<rparr>"]
  by (simp add: videoHandler_new_def isInCache_def)

section \<open>Drawing the current frame\<close>

text \<open>
  C7, as stated, fails for a zoom factor of 64 or more: with the requested frame already
  current, \<^verbatim>\<open>drawFrame\<close> draws the image and then also calls \<^verbatim>\<open>drawPixelValues\<close>.
\<close>

theorem drawFrame_current_counterexample:
  "drawFrame producer_ready 3 64
      ((videoHandler_new (4, 4) (-1))\<lparr>currentImage := QImage_pixels [3], currentImageIdx := 3\<rparr>)
   = Some ((videoHandler_new (4, 4) (-1))
       \<lparr>currentImage := QImage_pixels [3], currentImageIdx := 3,
        events := [drawImage (4, 4) 64 (QImage_pixels [3]), drawPixelValues 3 64]\<rparr>)"
  by (simp add: drawFrame_def drawFrame_paint_def emit_def videoHandler_new_def Let_def)

text \<open>
  C7, as the code has it. When \<open>frameIdx\<close> is the index of the current frame, \<^verbatim>\<open>drawFrame\<close> returns
  the handler it was given with \<^verbatim>\<open>loadingInBackground\<close> set to false and with the drawing calls
  added to the events: \<^verbatim>\<open>drawImage\<close> of the current image and, for a zoom factor of 64 or more,
  \<^verbatim>\<open>drawPixelValues\<close>. So the frame cache and \<^verbatim>\<open>cachingFramesMutices\<close> are neither read nor
  written, no \<^verbatim>\<open>signalRequestFrame\<close> is emitted, and the current image and its index are
  unchanged.
\<close>

theorem drawFrame_current:
  "drawFrame P (currentImageIdx s) zoomFactor s =
     Some (s\<lparr>loadingInBackground := False,
             events := events s @ [drawImage (frameSize s) zoomFactor (currentImage s)]
                       @ (if zoomFactor \<ge> 64 then [drawPixelValues (currentImageIdx s) zoomFactor]
                          else [])\<rparr>)"
  by (simp add: drawFrame_def drawFrame_paint_def emit_def Let_def)

section \<open>Removal and the change notification\<close>

text \<open>
  C10. Every call of \<^verbatim>\<open>removefromCache\<close>, whatever the index and whether or not the frame was
  cached, emits \<^verbatim>\<open>cachingTimerStart\<close>: the timer keeps its id when it was active and is started
  otherwise. With a timer id other than 0 the timer is active afterwards, and its timer event
  stops it and emits one \<^verbatim>\<open>signalHandlerChanged\<close>.
\<close>

theorem removefromCache_arms_timer:
  "events (removefromCache qid idx s) = events s @ [cachingTimerStart]
   \<and> cachingTimer (removefromCache qid idx s) = (if cachingTimer s = 0 then qid else cachingTimer s)
   \<and> (qid \<noteq> 0 \<longrightarrow>
        QBasicTimer_isActive (cachingTimer (removefromCache qid idx s))
        \<and> events (timerEvent base_timerEvent (cachingTimer (removefromCache qid idx s))
                   (removefromCache qid idx s))
          = events s @ [cachingTimerStart, signalHandlerChanged False False]
        \<and> \<not> QBasicTimer_isActive (cachingTimer
              (timerEvent base_timerEvent (cachingTimer (removefromCache qid idx s))
                   (removefromCache qid idx s))))"
  by (simp add: removefromCache_def emit_cachingTimerStart_def cachingTimerStart_slot_def
      emit_def Let_def QBasicTimer_isActive_def QBasicTimer_start_def QBasicTimer_stop_def
      timerEvent_def)

text \<open>C10 at a new handler: removal of frame 12, which is not cached, and removal of all
  frames.\<close>

theorem removefromCache_arms_timer_witness:
  "(7::int) \<noteq> 0
   \<and> events (removefromCache 7 12 (videoHandler_new (4, 4) (-1))) = [cachingTimerStart]
   \<and> cachingTimer (removefromCache 7 12 (videoHandler_new (4, 4) (-1))) = 7
   \<and> events (removefromCache 7 (-1) (videoHandler_new (4, 4) (-1))) = [cachingTimerStart]
   \<and> events (timerEvent (\<lambda>t s. s) 7 (removefromCache 7 12 (videoHandler_new (4, 4) (-1))))
       = [cachingTimerStart, signalHandlerChanged False False]"
  using removefromCache_arms_timer[of 7 12 "videoHandler_new (4, 4) (-1)" "\<lambda>t s. s"]
    removefromCache_arms_timer[of 7 "-1" "videoHandler_new (4, 4) (-1)" "\<lambda>t s. s"]
  by (auto simp: videoHandler_new_def)

section \<open>Caching and the change notification\<close>

lemma cacheFrame_success_state:
  assumes "cacheFrame_succeeds P i s"
  shows "cacheFrame P q i s =
     s\<lparr>requestedFrame := fst (P i True (requestedFrame s, requestedFrame_idx s)),
       requestedFrame_idx := i,
       imageCache := (imageCache s)(i \<mapsto> fst (P i True (requestedFrame s, requestedFrame_idx s))),
       cachingTimer := (if cachingTimer s = 0 then q else cachingTimer s),
       events := events s @ [signalRequestFrame i True, cachingTimerStart]\<rparr>"
  using assms
  by (simp add: cacheFrame_succeeds_def cacheFrame_def cacheFrame_register_def
      loadFrameForCaching_def emit_signalRequestFrame_def emit_def Let_def cacheFrame_insert_def
      cacheFrame_unlock_def cacheFrame_take_def emit_cachingTimerStart_def
      cachingTimerStart_slot_def QBasicTimer_isActive_def QBasicTimer_start_def fun_upd_idem)

lemma cacheFrames_events:
  "all_succeed cs s \<Longrightarrow>
     handlerChanged_events (events (cacheFrames cs s)) = handlerChanged_events (events s)
     \<and> (cs \<noteq> [] \<longrightarrow> cachingTimer (cacheFrames cs s) \<noteq> 0)
     \<and> (cachingTimer s \<noteq> 0 \<longrightarrow> cachingTimer (cacheFrames cs s) = cachingTimer s)
     \<and> (cachingTimer s = 0 \<and> cs \<noteq> [] \<longrightarrow> cachingTimer (cacheFrames cs s) = fst (snd (hd cs)))"
proof (induction cs arbitrary: s)
  case Nil
  then show ?case by simp
next
  case (Cons c cs)
  obtain P q i where c: "c = (P, q, i)" by (cases c) auto
  from Cons.prems c have ok: "cacheFrame_succeeds P i s" and q: "q \<noteq> 0"
    and rest: "all_succeed cs (cacheFrame P q i s)" by simp_all
  note st = cacheFrame_success_state[OF ok, of q]
  have t1: "cachingTimer (cacheFrame P q i s) = (if cachingTimer s = 0 then q else cachingTimer s)"
    by (subst st) simp
  have e1: "handlerChanged_events (events (cacheFrame P q i s)) = handlerChanged_events (events s)"
    by (subst st) (simp add: handlerChanged_events_def)
  from Cons.IH[OF rest] t1 e1 q show ?case
    by (auto simp: c)
qed

lemma all_succeed_not_cached:
  "all_succeed cs s \<Longrightarrow> c \<in> set cs \<Longrightarrow> \<not> isInCache (snd (snd c)) s"
proof (induction cs arbitrary: s)
  case Nil
  then show ?case by simp
next
  case (Cons a cs)
  obtain P q i where a: "a = (P, q, i)" by (cases a) auto
  from Cons.prems a have ok: "cacheFrame_succeeds P i s"
    and rest: "all_succeed cs (cacheFrame P q i s)" by simp_all
  show ?case
  proof (cases "c = a")
    case True
    with ok a show ?thesis by (simp add: cacheFrame_succeeds_def)
  next
    case False
    with Cons.prems have "c \<in> set cs" by simp
    from Cons.IH[OF rest this] show ?thesis
      by (subst (asm) cacheFrame_success_state[OF ok]) (auto simp: isInCache_def split: if_splits)
  qed
qed

lemma all_succeed_distinct: "all_succeed cs s \<Longrightarrow> distinct (map (\<lambda>c. snd (snd c)) cs)"
proof (induction cs arbitrary: s)
  case Nil
  then show ?case by simp
next
  case (Cons a cs)
  obtain P q i where a: "a = (P, q, i)" by (cases a) auto
  from Cons.prems a have ok: "cacheFrame_succeeds P i s"
    and rest: "all_succeed cs (cacheFrame P q i s)" by simp_all
  have "isInCache i (cacheFrame P q i s)"
    by (subst cacheFrame_success_state[OF ok]) (simp add: isInCache_def)
  with all_succeed_not_cached[OF rest] have "i \<notin> (\<lambda>c. snd (snd c)) ` set cs" by auto
  with Cons.IH[OF rest] a show ?case by simp
qed

text \<open>
  C1, as stated, fails in the arguments of the event: after two successful calls of
  \<^verbatim>\<open>cacheFrame\<close> the timer event emits \<^verbatim>\<open>signalHandlerChanged(false, false)\<close>, and
  \<^verbatim>\<open>signalHandlerChanged(false, true)\<close> is not among the events.
\<close>

theorem cacheFrames_then_timerEvent_counterexample:
  "events (timerEvent (\<lambda>t s. s) 7
      (cacheFrames [(producer_ready, 7, 1), (producer_ready, 8, 2)] (videoHandler_new (4, 4) (-1))))
   = [signalRequestFrame 1 True, cachingTimerStart, signalRequestFrame 2 True, cachingTimerStart,
      signalHandlerChanged False False]
   \<and> cachingTimer (cacheFrames [(producer_ready, 7, 1), (producer_ready, 8, 2)]
        (videoHandler_new (4, 4) (-1))) = 7
   \<and> signalHandlerChanged False True \<notin> set (events (timerEvent (\<lambda>t s. s) 7
      (cacheFrames [(producer_ready, 7, 1), (producer_ready, 8, 2)] (videoHandler_new (4, 4) (-1)))))"
  by (simp add: timerEvent_def cacheFrame_def cacheFrame_register_def
      loadFrameForCaching_def emit_signalRequestFrame_def emit_def Let_def cacheFrame_insert_def
      cacheFrame_unlock_def cacheFrame_take_def emit_cachingTimerStart_def isInCache_def
      cachingTimerStart_slot_def QBasicTimer_isActive_def QBasicTimer_start_def
      QBasicTimer_stop_def videoHandler_new_def producer_ready_def)

text \<open>
  C1, as the code has it. For every non-empty sequence of successful \<^verbatim>\<open>cacheFrame\<close> calls (their
  frame indices are then distinct): the calls emit no \<^verbatim>\<open>signalHandlerChanged\<close>; the timer is
  active afterwards, with the id it had when it was already active and else with the id given
  to the first call, so it is started only when not active; the timer event of that timer
  stops it and emits exactly one \<^verbatim>\<open>signalHandlerChanged\<close>, with the arguments (false, false).
\<close>

theorem cacheFrames_one_notification:
  assumes "cs \<noteq> []" and "all_succeed cs s"
  shows "distinct (map (\<lambda>c. snd (snd c)) cs)
       \<and> handlerChanged_events (events (cacheFrames cs s)) = handlerChanged_events (events s)
       \<and> QBasicTimer_isActive (cachingTimer (cacheFrames cs s))
       \<and> cachingTimer (cacheFrames cs s)
           = (if QBasicTimer_isActive (cachingTimer s) then cachingTimer s else fst (snd (hd cs)))
       \<and> events (timerEvent base_timerEvent (cachingTimer (cacheFrames cs s)) (cacheFrames cs s))
           = events (cacheFrames cs s) @ [signalHandlerChanged False False]
       \<and> handlerChanged_events
            (events (timerEvent base_timerEvent (cachingTimer (cacheFrames cs s)) (cacheFrames cs s)))
           = handlerChanged_events (events s) @ [signalHandlerChanged False False]
       \<and> \<not> QBasicTimer_isActive (cachingTimer
             (timerEvent base_timerEvent (cachingTimer (cacheFrames cs s)) (cacheFrames cs s)))"
proof -
  note E = cacheFrames_events[OF assms(2)]
  have ev: "events (timerEvent base_timerEvent (cachingTimer (cacheFrames cs s)) (cacheFrames cs s))
           = events (cacheFrames cs s) @ [signalHandlerChanged False False]"
    by (simp add: timerEvent_def emit_def)
  have "handlerChanged_events
            (events (timerEvent base_timerEvent (cachingTimer (cacheFrames cs s)) (cacheFrames cs s)))
           = handlerChanged_events (events s) @ [signalHandlerChanged False False]"
    using E by (simp add: ev) (simp add: handlerChanged_events_def)
  moreover have "\<not> QBasicTimer_isActive (cachingTimer
             (timerEvent base_timerEvent (cachingTimer (cacheFrames cs s)) (cacheFrames cs s)))"
    by (simp add: timerEvent_def emit_def QBasicTimer_isActive_def QBasicTimer_stop_def)
  moreover have "cachingTimer (cacheFrames cs s)
           = (if QBasicTimer_isActive (cachingTimer s) then cachingTimer s else fst (snd (hd cs)))"
    using E assms(1) by (simp add: QBasicTimer_isActive_def)
  moreover have "QBasicTimer_isActive (cachingTimer (cacheFrames cs s))"
    using E assms(1) by (simp add: QBasicTimer_isActive_def)
  ultimately show ?thesis using E ev all_succeed_distinct[OF assms(2)] by simp
qed

text \<open>C1 at a new handler and three successful calls, for the frames 1, 2 and 5.\<close>

theorem cacheFrames_one_notification_witness:
  "[(producer_ready, 7, 1), (producer_ready, 8, 2), (producer_ready, 9, 5)] \<noteq> []
   \<and> all_succeed [(producer_ready, 7, 1), (producer_ready, 8, 2), (producer_ready, 9, 5)]
        (videoHandler_new (4, 4) (-1))
   \<and> handlerChanged_events (events (timerEvent (\<lambda>t s. s)
        (cachingTimer (cacheFrames [(producer_ready, 7, 1), (producer_ready, 8, 2), (producer_ready, 9, 5)]
            (videoHandler_new (4, 4) (-1))))
        (cacheFrames [(producer_ready, 7, 1), (producer_ready, 8, 2), (producer_ready, 9, 5)]
            (videoHandler_new (4, 4) (-1)))))
     = [signalHandlerChanged False False]
   \<and> cachingTimer (cacheFrames [(producer_ready, 7, 1), (producer_ready, 8, 2), (producer_ready, 9, 5)]
            (videoHandler_new (4, 4) (-1))) = 7"
proof -
  have ok: "all_succeed [(producer_ready, 7, 1), (producer_ready, 8, 2), (producer_ready, 9, 5)]
        (videoHandler_new (4, 4) (-1))"
    by (simp add: cacheFrame_succeeds_def cacheFrame_def cacheFrame_register_def
      loadFrameForCaching_def emit_signalRequestFrame_def emit_def Let_def cacheFrame_insert_def
      cacheFrame_unlock_def cacheFrame_take_def emit_cachingTimerStart_def isInCache_def
      cachingTimerStart_slot_def QBasicTimer_isActive_def QBasicTimer_start_def
      videoHandler_new_def producer_ready_def)
  have e: "handlerChanged_events (events (videoHandler_new (4, 4) (-1))) = []"
    "cachingTimer (videoHandler_new (4, 4) (-1)) = 0"
    by (simp_all add: handlerChanged_events_def videoHandler_new_def)
  have n: "[(producer_ready, 7, 1), (producer_ready, 8, 2), (producer_ready, 9, 5)] \<noteq> []"
    by simp
  note T = cacheFrames_one_notification[OF n ok, of "\<lambda>t s. s"]
  have h: "handlerChanged_events (events (timerEvent (\<lambda>t s. s)
        (cachingTimer (cacheFrames [(producer_ready, 7, 1), (producer_ready, 8, 2), (producer_ready, 9, 5)]
            (videoHandler_new (4, 4) (-1))))
        (cacheFrames [(producer_ready, 7, 1), (producer_ready, 8, 2), (producer_ready, 9, 5)]
            (videoHandler_new (4, 4) (-1)))))
     = [signalHandlerChanged False False]"
    using T e(1) by (elim conjE) simp
  have t7: "cachingTimer (cacheFrames [(producer_ready, 7, 1), (producer_ready, 8, 2), (producer_ready, 9, 5)]
            (videoHandler_new (4, 4) (-1))) = 7"
    using T e(2) by (elim conjE) (simp add: QBasicTimer_isActive_def)
  from n ok h t7 show ?thesis by blast
qed

text \<open>
  Calls of \<^verbatim>\<open>cacheFrame\<close> that run one after the other, each from its first line to its last
  with no other thread in between: when frame \<open>i\<close> is in the cache or registered in
  \<^verbatim>\<open>cachingFramesMutices\<close>, the call returns the handler unchanged, with no
  \<^verbatim>\<open>signalRequestFrame\<close> and no change of the cache. When a first call succeeds, a second call
  changes nothing: the cache is the old one with the one new entry for \<open>i\<close>, and both calls
  together have emitted one \<^verbatim>\<open>signalRequestFrame(i, true)\<close>.
\<close>

lemma cacheFrame_idempotent:
  "(isInCache i s \<or> cachingFramesMutices s i \<noteq> None \<longrightarrow> cacheFrame P qid i s = s)
   \<and> (cacheFrame_succeeds P i s \<longrightarrow>
        cacheFrame P' qid' i (cacheFrame P qid i s) = cacheFrame P qid i s
        \<and> imageCache (cacheFrame P qid i s)
            = (imageCache s)(i \<mapsto> fst (P i True (requestedFrame s, requestedFrame_idx s)))
        \<and> events (cacheFrame P' qid' i (cacheFrame P qid i s))
            = events s @ [signalRequestFrame i True, cachingTimerStart])"
proof (intro conjI impI)
  assume "isInCache i s \<or> cachingFramesMutices s i \<noteq> None"
  then show "cacheFrame P qid i s = s" by (auto simp: cacheFrame_def)
next
  assume ok: "cacheFrame_succeeds P i s"
  have c: "isInCache i (cacheFrame P qid i s)"
    by (subst cacheFrame_success_state[OF ok]) (simp add: isInCache_def)
  then show again: "cacheFrame P' qid' i (cacheFrame P qid i s) = cacheFrame P qid i s"
    by (simp add: cacheFrame_def)
  show "imageCache (cacheFrame P qid i s)
            = (imageCache s)(i \<mapsto> fst (P i True (requestedFrame s, requestedFrame_idx s)))"
    by (subst cacheFrame_success_state[OF ok]) simp
  show "events (cacheFrame P' qid' i (cacheFrame P qid i s))
            = events s @ [signalRequestFrame i True, cachingTimerStart]"
    unfolding again by (subst cacheFrame_success_state[OF ok]) simp
qed

text \<open>The same at a handler with frame 5 cached, at one with frame 5 registered, and at a new
  handler where the first call succeeds.\<close>

lemma cacheFrame_idempotent_example:
  "isInCache 5 ((videoHandler_new (4, 4) (-1))\<lparr>imageCache := [5 \<mapsto> QImage_pixels [5]]\<rparr>)
   \<and> cacheFrame producer_ready 7 5
        ((videoHandler_new (4, 4) (-1))\<lparr>imageCache := [5 \<mapsto> QImage_pixels [5]]\<rparr>)
      = (videoHandler_new (4, 4) (-1))\<lparr>imageCache := [5 \<mapsto> QImage_pixels [5]]\<rparr>
   \<and> cachingFramesMutices
        ((videoHandler_new (4, 4) (-1))\<lparr>cachingFramesMutices := [5 \<mapsto> True]\<rparr>) 5 \<noteq> None
   \<and> cacheFrame producer_ready 7 5
        ((videoHandler_new (4, 4) (-1))\<lparr>cachingFramesMutices := [5 \<mapsto> True]\<rparr>)
      = (videoHandler_new (4, 4) (-1))\<lparr>cachingFramesMutices := [5 \<mapsto> True]\<rparr>
   \<and> cacheFrame_succeeds producer_ready 5 (videoHandler_new (4, 4) (-1))
   \<and> imageCache (cacheFrame producer_ready 8 5
         (cacheFrame producer_ready 7 5 (videoHandler_new (4, 4) (-1)))) = [5 \<mapsto> QImage_pixels [5]]
   \<and> events (cacheFrame producer_ready 8 5
         (cacheFrame producer_ready 7 5 (videoHandler_new (4, 4) (-1))))
      = [signalRequestFrame 5 True, cachingTimerStart]"
proof -
  have a: "isInCache 5 ((videoHandler_new (4, 4) (-1))\<lparr>imageCache := [5 \<mapsto> QImage_pixels [5]]\<rparr>)"
    by (simp add: isInCache_def)
  have b: "cachingFramesMutices
        ((videoHandler_new (4, 4) (-1))\<lparr>cachingFramesMutices := [5 \<mapsto> True]\<rparr>) 5 \<noteq> None"
    by simp
  have c: "cacheFrame_succeeds producer_ready 5 (videoHandler_new (4, 4) (-1))"
    by (simp add: cacheFrame_succeeds_def isInCache_def videoHandler_new_def producer_ready_def)
  have r1: "cacheFrame producer_ready 7 5
        ((videoHandler_new (4, 4) (-1))\<lparr>imageCache := [5 \<mapsto> QImage_pixels [5]]\<rparr>)
      = (videoHandler_new (4, 4) (-1))\<lparr>imageCache := [5 \<mapsto> QImage_pixels [5]]\<rparr>"
    using a cacheFrame_idempotent[of 5
        "(videoHandler_new (4, 4) (-1))\<lparr>imageCache := [5 \<mapsto> QImage_pixels [5]]\<rparr>"
        producer_ready 7 producer_ready 8]
    by blast
  have r2: "cacheFrame producer_ready 7 5
        ((videoHandler_new (4, 4) (-1))\<lparr>cachingFramesMutices := [5 \<mapsto> True]\<rparr>)
      = (videoHandler_new (4, 4) (-1))\<lparr>cachingFramesMutices := [5 \<mapsto> True]\<rparr>"
    using b cacheFrame_idempotent[of 5
        "(videoHandler_new (4, 4) (-1))\<lparr>cachingFramesMutices := [5 \<mapsto> True]\<rparr>"
        producer_ready 7 producer_ready 8]
    by blast
  have r3: "imageCache (cacheFrame producer_ready 8 5
         (cacheFrame producer_ready 7 5 (videoHandler_new (4, 4) (-1)))) = [5 \<mapsto> QImage_pixels [5]]
   \<and> events (cacheFrame producer_ready 8 5
         (cacheFrame producer_ready 7 5 (videoHandler_new (4, 4) (-1))))
      = [signalRequestFrame 5 True, cachingTimerStart]"
  proof -
    from c cacheFrame_idempotent[of 5 "videoHandler_new (4, 4) (-1)" producer_ready 7 producer_ready 8]
    have again: "cacheFrame producer_ready 8 5 (cacheFrame producer_ready 7 5 (videoHandler_new (4, 4) (-1)))
        = cacheFrame producer_ready 7 5 (videoHandler_new (4, 4) (-1))"
      and cache: "imageCache (cacheFrame producer_ready 7 5 (videoHandler_new (4, 4) (-1)))
        = (imageCache (videoHandler_new (4, 4) (-1)))(5 \<mapsto> fst (producer_ready 5 True
             (requestedFrame (videoHandler_new (4, 4) (-1)), requestedFrame_idx (videoHandler_new (4, 4) (-1)))))"
      and ev: "events (cacheFrame producer_ready 8 5 (cacheFrame producer_ready 7 5 (videoHandler_new (4, 4) (-1))))
        = events (videoHandler_new (4, 4) (-1)) @ [signalRequestFrame 5 True, cachingTimerStart]"
      by blast+
    show ?thesis
      unfolding again[symmetric, THEN arg_cong, of imageCache] ev
      by (simp add: again cache) (simp add: videoHandler_new_def producer_ready_def)
  qed
  from a b c r1 r2 r3 show ?thesis by blast
qed

section \<open>The invariant of the interleaving model\<close>

text \<open>Every step of the model keeps the invariant: each of its five parts is preserved, by
  cases on the thread that steps and on its program point. Steps that leave the registered
  mutexes and what the threads hold as they are need no argument of their own.\<close>

lemma inv_initial: "initial s \<Longrightarrow> inv s"
  by (simp add: initial_def inv_def inv_access_def inv_request_def inv_owner_def inv_waiter_def
      inv_inserted_def)

lemmas hdefs = cacheFrame_register_def cacheFrame_insert_def cacheFrame_unlock_def
  cacheFrame_take_def loadFrameForCaching_def emit_signalRequestFrame_def emit_def
  emit_cachingTimerStart_def cachingTimerStart_slot_def makeCachedFrameCurrent_def
  loadFrame_promote_def drawFrame_paint_def isInCache_def Let_def

lemma inv_access_step:
  assumes "inv s" "step P qid a s = Some s'"
  shows "inv_access s'"
proof (cases a)
  case (Call_drawFrame j z)
  with assms show ?thesis by (auto simp: inv_def inv_access_def split: if_splits)
next
  case Step_renderer
  with assms show ?thesis
    by (cases "render_thread s") (auto simp: inv_def inv_access_def Let_def split: if_splits option.splits)
next
  case (Call_cacheFrame w i)
  with assms show ?thesis by (auto simp: inv_def inv_access_def set_worker_def split: if_splits)
next
  case (Step_worker w)
  with assms show ?thesis
    by (cases "worker_threads s w") (auto simp: inv_def inv_access_def set_worker_def Let_def split: if_splits)
qed

lemma inv_requestD:
  assumes "inv s"
  shows "requestDataMutex s =
        (renderer_requesting (render_thread s) \<or> (\<exists>w. worker_requesting (worker_threads s w)))"
    and "renderer_requesting (render_thread s) \<Longrightarrow> \<not> worker_requesting (worker_threads s w)"
    and "worker_requesting (worker_threads s w) \<Longrightarrow> worker_requesting (worker_threads s w') \<Longrightarrow> w = w'"
  using assms by (auto simp: inv_def inv_request_def)

lemma inv_insertedD:
  assumes "inv s" "inserted (worker_threads s w) = Some (i, c)" "\<not> isNull c"
  shows "imageCache (handler s) i = Some c"
  using assms by (auto simp: inv_def inv_inserted_def)

lemma inserted_owns: "inserted pc = Some (i, c) \<Longrightarrow> owns pc = Some i"
  by (cases pc) auto

lemma inv_request_same:
  assumes "inv_request s"
    and "requestDataMutex s' = requestDataMutex s"
    and "renderer_requesting (render_thread s') = renderer_requesting (render_thread s)"
    and "\<And>w. worker_requesting (worker_threads s' w) = worker_requesting (worker_threads s w)"
  shows "inv_request s'"
  using assms unfolding inv_request_def by simp

lemma inv_request_step:
  assumes "inv s" "step P qid a s = Some s'"
  shows "inv_request s'"
proof -
  from assms(1) have I: "inv_request s" by (simp add: inv_def)
  show ?thesis
  proof (cases a)
    case (Call_drawFrame j z)
    with assms(2) show ?thesis
      by (intro inv_request_same[OF I]) (auto split: if_splits)
  next
    case Step_renderer
    show ?thesis
    proof (cases "render_thread s")
      case (R_lockRequest j z)
      with Step_renderer assms(2) I show ?thesis
        by (auto simp: inv_request_def split: if_splits)
    next
      case (R_request j z)
      with Step_renderer assms(2) I show ?thesis
        by (auto simp: inv_request_def Let_def split: if_splits)
    qed (use Step_renderer assms(2) in
        \<open>(intro inv_request_same[OF I]; auto simp: Let_def split: if_splits option.splits)+\<close>)
  next
    case (Call_cacheFrame w i)
    with assms(2) show ?thesis
      by (intro inv_request_same[OF I]) (auto simp: set_worker_def split: if_splits)
  next
    case (Step_worker w)
    show ?thesis
    proof (cases "worker_threads s w")
      case (W_lockRequest i)
      with Step_worker assms(2) I show ?thesis
        by (auto simp: inv_request_def set_worker_def split: if_splits)
    next
      case (W_request i)
      with Step_worker assms(2) I inv_requestD(2)[OF assms(1), of w]
        inv_requestD(3)[OF assms(1), of w] inv_requestD(3)[OF assms(1), of _ w]
      show ?thesis
        by (auto simp: inv_request_def set_worker_def Let_def split: if_splits)
    qed (use Step_worker assms(2) in
        \<open>(intro inv_request_same[OF I]; auto simp: set_worker_def split: if_splits)+\<close>)
  qed
qed

lemma inv_inserted_step:
  assumes "inv s" "step P qid a s = Some s'"
  shows "inv_inserted s'"
proof (cases a)
  case (Call_drawFrame j z)
  with assms show ?thesis by (auto simp: inv_def inv_inserted_def split: if_splits)
next
  case Step_renderer
  with assms show ?thesis
    by (cases "render_thread s") (auto simp: inv_def inv_inserted_def hdefs split: if_splits option.splits)
next
  case (Call_cacheFrame w i)
  with assms show ?thesis by (auto simp: inv_def inv_inserted_def set_worker_def split: if_splits)
next
  case (Step_worker w)
  note D = inv_insertedD[OF assms(1)]
  show ?thesis
  proof (cases "worker_threads s w")
    case (W_insert i c)
    with Step_worker assms(2) have s': "s' = set_worker w (W_unlock i c)
             (s\<lparr>handler := cacheFrame_insert i c (handler s)\<rparr>)" by simp
    have other: "\<And>w' i' c'. w' \<noteq> w \<Longrightarrow> inserted (worker_threads s w') = Some (i', c') \<Longrightarrow> i' \<noteq> i"
    proof
      fix w' i' c'
      assume ne: "w' \<noteq> w" and ins: "inserted (worker_threads s w') = Some (i', c')" and eq: "i' = i"
      from inserted_owns[OF ins] eq have "owns (worker_threads s w') = Some i" by simp
      moreover from W_insert have "owns (worker_threads s w) = Some i" by simp
      ultimately have "w = w'" using assms(1) unfolding inv_def inv_owner_def by blast
      with ne show False by simp
    qed
    show ?thesis
      unfolding inv_inserted_def
    proof (intro allI impI)
      fix w' i' c'
      assume ins: "inserted (worker_threads s' w') = Some (i', c')" and nn: "\<not> isNull c'"
      show "imageCache (handler s') i' = Some c'"
      proof (cases "w' = w")
        case True
        with ins nn show ?thesis by (simp add: s' set_worker_def cacheFrame_insert_def)
      next
        case False
        with ins have old: "inserted (worker_threads s w') = Some (i', c')"
          by (simp add: s' set_worker_def)
        from other[OF False old] D[OF old nn] show ?thesis
          by (simp add: s' set_worker_def cacheFrame_insert_def)
      qed
    qed
  qed (use Step_worker assms D[of w] in
        \<open>auto simp: inv_def inv_inserted_def set_worker_def hdefs split: if_splits\<close>)
qed

lemma inv_registry_same:
  assumes "inv_owner s" "inv_waiter s"
    and "cachingFramesMutices (handler s') = cachingFramesMutices (handler s)"
    and "renderer_waiting (render_thread s') = renderer_waiting (render_thread s)"
    and "renderer_holding (render_thread s') = renderer_holding (render_thread s)"
    and "\<And>w. owns (worker_threads s' w) = owns (worker_threads s w)"
    and "\<And>w. holds_frameMutex (worker_threads s' w) = holds_frameMutex (worker_threads s w)"
  shows "inv_owner s' \<and> inv_waiter s'"
  using assms unfolding inv_owner_def inv_waiter_def by simp

lemma inv_ownerD:
  assumes "inv s"
  shows "owns (worker_threads s w) = Some i \<Longrightarrow>
          cachingFramesMutices (handler s) i =
            Some (holds_frameMutex (worker_threads s w) \<or> renderer_holding (render_thread s) = Some i)"
    and "owns (worker_threads s w) = Some i \<Longrightarrow> owns (worker_threads s w') = Some i \<Longrightarrow> w = w'"
    and "cachingFramesMutices (handler s) i \<noteq> None \<Longrightarrow> \<exists>w. owns (worker_threads s w) = Some i"
  using assms by (auto simp: inv_def inv_owner_def)

lemma inv_waiterD:
  assumes "inv s"
  shows "renderer_waiting (render_thread s) = Some j \<Longrightarrow> cachingFramesMutices (handler s) j \<noteq> None"
    and "renderer_holding (render_thread s) = Some j \<Longrightarrow>
          \<exists>w. owns (worker_threads s w) = Some j \<and> \<not> holds_frameMutex (worker_threads s w)"
  using assms by (auto simp: inv_def inv_waiter_def)

lemma inv_accessD:
  assumes "inv s"
  shows "cachingFramesMuticesAccess s =
        (renderer_waiting (render_thread s) \<noteq> None \<or> renderer_holding (render_thread s) \<noteq> None)"
  using assms by (auto simp: inv_def inv_access_def)

lemma inv_registry_renderer:
  assumes "inv s" "renderer_step P (render_thread s) s = Some s'"
  shows "inv_owner s' \<and> inv_waiter s'"
proof -
  from assms(1) have I: "inv_owner s" "inv_waiter s" by (simp_all add: inv_def)
  show ?thesis
  proof (cases "render_thread s")
    case (R_contains j z)
    with assms(2) I show ?thesis
      by (auto simp: inv_owner_def inv_waiter_def split: if_splits)
  next
    case (R_wait j z)
    with assms(2) obtain b where b: "cachingFramesMutices (handler s) j = Some False"
      and s': "s' = s\<lparr>handler := (handler s)\<lparr>cachingFramesMutices :=
                         (cachingFramesMutices (handler s))(j \<mapsto> True)\<rparr>,
                      render_thread := R_release j z\<rparr>"
      by (auto split: option.splits if_splits)
    from inv_ownerD(3)[OF assms(1), of j] b obtain w0 where w0: "owns (worker_threads s w0) = Some j"
      by auto
    from inv_ownerD(1)[OF assms(1) w0] b R_wait have nh: "\<not> holds_frameMutex (worker_threads s w0)"
      by simp
    have O1: "\<And>w i. owns (worker_threads s w) = Some i \<Longrightarrow>
          cachingFramesMutices (handler s) i = Some (holds_frameMutex (worker_threads s w))"
      using inv_ownerD(1)[OF assms(1)] R_wait by simp
    show ?thesis
      unfolding inv_owner_def inv_waiter_def s'
      using O1 inv_ownerD(2)[OF assms(1)] inv_ownerD(3)[OF assms(1)] w0 nh
      by (auto)
  next
    case (R_release j z)
    with assms(2) have s': "s' = s\<lparr>handler := (handler s)\<lparr>cachingFramesMutices :=
                             (cachingFramesMutices (handler s))(j \<mapsto> False)\<rparr>,
             cachingFramesMuticesAccess := False,
             render_thread := R_recheck j z\<rparr>" by simp
    from inv_waiterD(2)[OF assms(1), of j] R_release obtain w0 where
      w0: "owns (worker_threads s w0) = Some j" "\<not> holds_frameMutex (worker_threads s w0)"
      by auto
    have O1: "\<And>w i. owns (worker_threads s w) = Some i \<Longrightarrow>
          cachingFramesMutices (handler s) i = Some (holds_frameMutex (worker_threads s w) \<or> j = i)"
      using inv_ownerD(1)[OF assms(1)] R_release by simp
    have O2: "\<And>w. owns (worker_threads s w) = Some j \<Longrightarrow> w = w0"
      using inv_ownerD(2)[OF assms(1) _ w0(1)] by simp
    show ?thesis
      unfolding inv_owner_def inv_waiter_def s'
      using O1 inv_ownerD(2)[OF assms(1)] inv_ownerD(3)[OF assms(1)] w0
      by (auto; metis O2 w0)
  qed (use assms(2) in
        \<open>(intro inv_registry_same[OF I]; auto simp: hdefs split: if_splits option.splits)+\<close>)
qed


lemma inv_registry_worker:
  assumes "inv s" "worker_step P qid w (worker_threads s w) s = Some s'"
  shows "inv_owner s' \<and> inv_waiter s'"
proof -
  from assms(1) have I: "inv_owner s" "inv_waiter s" by (simp_all add: inv_def)
  note O1 = inv_ownerD(1)[OF assms(1)] and O2 = inv_ownerD(2)[OF assms(1)]
    and O3 = inv_ownerD(3)[OF assms(1)] and W1 = inv_waiterD(1)[OF assms(1)]
    and W2 = inv_waiterD(2)[OF assms(1)] and A = inv_accessD[OF assms(1)]
  show ?thesis
  proof (cases "worker_threads s w")
    case (W_register i)
    show ?thesis
    proof (cases "cachingFramesMutices (handler s) i \<noteq> None")
      case True
      with W_register assms(2) show ?thesis
        by (intro inv_registry_same[OF I]) (auto simp: set_worker_def split: if_splits)
    next
      case False
      with W_register assms(2) have
        s': "s' = set_worker w (W_lockRequest i) (s\<lparr>handler := cacheFrame_register i (handler s)\<rparr>)"
        and free: "\<not> cachingFramesMuticesAccess s"
        by (auto split: if_splits)
      from False have none: "\<And>w'. owns (worker_threads s w') \<noteq> Some i"
        using O1 by fastforce
      show ?thesis
        unfolding inv_owner_def inv_waiter_def s' set_worker_def cacheFrame_register_def
        using O1 O2 O3 W1 W2 none W_register
        by (auto) (metis W_register owns.simps(8) option.distinct(1))+
    qed
  next
    case (W_unlock i c)
    with assms(2) have s': "s' = set_worker w (W_take i c)
             (s\<lparr>handler := cacheFrame_unlock i (handler s)\<rparr>)" by simp
    have own: "owns (worker_threads s w) = Some i" using W_unlock by simp
    have nh: "renderer_holding (render_thread s) \<noteq> Some i"
    proof
      assume "renderer_holding (render_thread s) = Some i"
      from W2[OF this] obtain w0 where "owns (worker_threads s w0) = Some i"
        "\<not> holds_frameMutex (worker_threads s w0)" by auto
      with O2[OF own, of w0] W_unlock show False by auto
    qed
    have other: "\<And>w'. w' \<noteq> w \<Longrightarrow> owns (worker_threads s w') \<noteq> Some i"
      using O2[OF own] by auto
    show ?thesis
      unfolding inv_owner_def inv_waiter_def s' set_worker_def cacheFrame_unlock_def
      using O1 O2 O3 W1 W2 nh other W_unlock
      by (auto) (metis own option.inject)+
  next
    case (W_take i c)
    with assms(2) have s': "s' = set_worker w (W_notify i c)
                   (s\<lparr>handler := cacheFrame_take i (handler s)\<rparr>)"
      and free: "\<not> cachingFramesMuticesAccess s" by (auto split: if_splits)
    have own: "owns (worker_threads s w) = Some i" using W_take by simp
    from free A have R: "renderer_waiting (render_thread s) = None"
      "renderer_holding (render_thread s) = None" by auto
    have other: "\<And>w'. w' \<noteq> w \<Longrightarrow> owns (worker_threads s w') \<noteq> Some i"
      using O2[OF own] by auto
    show ?thesis
      unfolding inv_owner_def inv_waiter_def s' set_worker_def cacheFrame_take_def
      using O1 O2 O3 R other W_take
      by (auto) (metis own option.inject)+
  qed (use assms(2) in
        \<open>(intro inv_registry_same[OF I]; auto simp: hdefs set_worker_def split: if_splits option.splits)+\<close>)
qed

text \<open>So the invariant holds in every reachable state; the cache never loses a frame.\<close>

lemma inv_step:
  assumes "inv s" "step P qid a s = Some s'"
  shows "inv s'"
proof -
  have "inv_owner s' \<and> inv_waiter s'"
  proof (cases a)
    case (Call_drawFrame j z)
    from assms(1) have I: "inv_owner s" "inv_waiter s" by (simp_all add: inv_def)
    from Call_drawFrame assms(2) show ?thesis
      by (intro inv_registry_same[OF I]) (auto split: if_splits)
  next
    case Step_renderer
    with assms show ?thesis using inv_registry_renderer by simp
  next
    case (Call_cacheFrame w i)
    from assms(1) have I: "inv_owner s" "inv_waiter s" by (simp_all add: inv_def)
    from Call_cacheFrame assms(2) show ?thesis
      by (intro inv_registry_same[OF I]) (auto simp: set_worker_def split: if_splits)
  next
    case (Step_worker w)
    with assms show ?thesis using inv_registry_worker by simp
  qed
  with inv_access_step[OF assms] inv_request_step[OF assms] inv_inserted_step[OF assms]
  show ?thesis by (simp add: inv_def)
qed

lemma reachable_inv: "reachable s \<Longrightarrow> inv s"
  by (induction rule: reachable.induct) (auto intro: inv_initial inv_step)

lemma steps_reachable: "steps s s' \<Longrightarrow> reachable s \<Longrightarrow> reachable s'"
  by (induction rule: steps.induct) (auto intro: reachable_step)

lemma step_cache_mono:
  assumes "step P qid a s = Some s'" "imageCache (handler s) i \<noteq> None"
  shows "imageCache (handler s') i \<noteq> None"
proof (cases a)
  case (Call_drawFrame j z)
  with assms show ?thesis by (auto split: if_splits)
next
  case Step_renderer
  with assms show ?thesis
    by (cases "render_thread s") (auto simp: hdefs split: if_splits option.splits)
next
  case (Call_cacheFrame w i)
  with assms show ?thesis by (auto simp: set_worker_def split: if_splits)
next
  case (Step_worker w)
  with assms show ?thesis
    by (cases "worker_threads s w") (auto simp: set_worker_def hdefs split: if_splits)
qed

lemma steps_cache_mono:
  "steps s s' \<Longrightarrow> imageCache (handler s) i \<noteq> None \<Longrightarrow> imageCache (handler s') i \<noteq> None"
  by (induction rule: steps.induct) (auto dest: step_cache_mono)

lemma step_cache_image:
  assumes "step P qid a s = Some s'" "\<exists>c. imageCache (handler s) i = Some c \<and> \<not> isNull c"
  shows "\<exists>c. imageCache (handler s') i = Some c \<and> \<not> isNull c"
proof (cases a)
  case (Call_drawFrame j z)
  with assms show ?thesis by (auto split: if_splits)
next
  case Step_renderer
  with assms show ?thesis
    by (cases "render_thread s") (auto simp: hdefs split: if_splits option.splits)
next
  case (Call_cacheFrame w i)
  with assms show ?thesis by (auto simp: set_worker_def split: if_splits)
next
  case (Step_worker w)
  with assms show ?thesis
    by (cases "worker_threads s w") (auto simp: set_worker_def hdefs split: if_splits)
qed

lemma steps_cache_image:
  "steps s s' \<Longrightarrow> \<exists>c. imageCache (handler s) i = Some c \<and> \<not> isNull c \<Longrightarrow>
   \<exists>c. imageCache (handler s') i = Some c \<and> \<not> isNull c"
  by (induction rule: steps.induct) (auto dest: step_cache_image)

lemma steps_first:
  assumes "step P qid a s = Some s1" "steps s1 s'"
  shows "steps s s'"
  using assms(2)
proof (induction rule: steps.induct)
  case steps_refl
  from steps.steps_step[OF steps.steps_refl assms(1)] show ?case .
next
  case (steps_step s2 P' qid' a' s3)
  from steps.steps_step[OF steps_step.IH steps_step.hyps(2)] show ?case .
qed

lemma run_steps: "run P qid as s = Some s' \<Longrightarrow> steps s s'"
proof (induction as arbitrary: s)
  case Nil
  then show ?case by (simp add: steps_refl)
next
  case (Cons a as)
  then obtain s1 where s1: "step P qid a s = Some s1" "run P qid as s1 = Some s'"
    by (auto split: option.splits)
  from steps_first[OF s1(1) Cons.IH[OF s1(2)]] show ?case .
qed

lemma run_reachable: "initial s \<Longrightarrow> run P qid as s = Some s' \<Longrightarrow> reachable s'"
  using steps_reachable[OF run_steps] reachable_initial by blast

lemma owner_taking:
  assumes "reachable s" "render_thread s = R_release j z"
  shows "\<exists>w c. worker_threads s w = W_take j c"
proof -
  from inv_waiterD(2)[OF reachable_inv[OF assms(1)], of j] assms(2) obtain w where
    w: "owns (worker_threads s w) = Some j" "\<not> holds_frameMutex (worker_threads s w)" by auto
  then show ?thesis by (cases "worker_threads s w") auto
qed

lemma owner_entry:
  assumes "reachable s" "owns (worker_threads s w) = Some i"
  shows "cachingFramesMutices (handler s) i =
           Some (holds_frameMutex (worker_threads s w) \<or> renderer_holding (render_thread s) = Some i)"
  using inv_ownerD(1)[OF reachable_inv[OF assms(1)] assms(2)] .

lemma waiter_observes:
  assumes "reachable s" "worker_threads s w = W_take j c" "\<not> isNull c"
    "steps s s'" "render_thread s' = R_recheck j z" "step P qid Step_renderer s' = Some s''"
  shows "\<exists>c'. imageCache (handler s') j = Some c' \<and> \<not> isNull c'
            \<and> currentImage (handler s'') = c' \<and> currentImageIdx (handler s'') = j"
proof -
  from inv_insertedD[OF reachable_inv[OF assms(1)], of w j c] assms(2,3)
  have "\<exists>c'. imageCache (handler s) j = Some c' \<and> \<not> isNull c'" by simp
  from steps_cache_image[OF assms(4) this] obtain c' where
    c: "imageCache (handler s') j = Some c'" "\<not> isNull c'" by blast
  with assms(5,6) show ?thesis by (auto simp: makeCachedFrameCurrent_def)
qed

lemma waiter_reads_at_once:
  assumes "reachable s" "render_thread s = R_release j z" "worker_threads s w = W_take j c"
    "\<not> isNull c" "step P qid Step_renderer s = Some s1" "step P' qid' Step_renderer s1 = Some s2"
  shows "imageCache (handler s) j = Some c \<and> currentImage (handler s2) = c
       \<and> currentImageIdx (handler s2) = j"
proof -
  from inv_insertedD[OF reachable_inv[OF assms(1)], of w j c] assms(3,4)
  have "imageCache (handler s) j = Some c" by simp
  with assms(2,5,6) show ?thesis by (auto simp: makeCachedFrameCurrent_def)
qed

text \<open>The example schedules are evaluated with these equations.\<close>

lemmas sched_defs = state_after_def schedule_wait_def schedule_current_def schedule_race_def
  schedule_decoding_def schedule_race_mid_def schedule_twice_mid_def schedule_twice_def
  system_new_def videoHandler_new_def producer_ready_def producer_deferring_def
  set_worker_def hdefs

lemma state_after_reachable:
  assumes "run P 1 acts (system_new (videoHandler_new (4, 4) (-1))) \<noteq> None"
  shows "reachable (state_after P acts)"
proof -
  have "initial (system_new (videoHandler_new (4, 4) (-1)))"
    by (simp add: initial_def system_new_def videoHandler_new_def)
  from run_reachable[OF this] assms show ?thesis by (auto simp: state_after_def)
qed

lemma state_after_steps:
  assumes "run P 1 (acts @ rest) (system_new (videoHandler_new (4, 4) (-1))) \<noteq> None"
  shows "steps (state_after P acts) (state_after P (acts @ rest))"
proof -
  have split: "\<And>s. run P 1 (acts @ rest) s =
       (case run P 1 acts s of None \<Rightarrow> None | Some s' \<Rightarrow> run P 1 rest s')"
    by (induction acts) (auto split: option.splits)
  from assms obtain s1 s2 where
    "run P 1 acts (system_new (videoHandler_new (4, 4) (-1))) = Some s1"
    "run P 1 rest s1 = Some s2"
    "run P 1 (acts @ rest) (system_new (videoHandler_new (4, 4) (-1))) = Some s2"
    by (auto simp: split split: option.splits)
  with run_steps[of P 1 rest s1 s2] show ?thesis by (simp add: state_after_def)
qed

section \<open>A member function run alone\<close>

text \<open>A worker that runs \<^verbatim>\<open>cacheFrame\<close> with no other thread running ends with the handler that
  the function \<open>cacheFrame\<close> gives; the renderer that runs \<^verbatim>\<open>drawFrame\<close> alone ends with
  the handler that \<open>drawFrame\<close> gives, or waits for ever for a locked frame mutex where
  \<open>drawFrame\<close> is \<open>None\<close>.\<close>

lemma system_idle_eq:
  assumes "worker_threads s w = W_idle"
  shows "s\<lparr>worker_threads := (worker_threads s)(w := W_idle)\<rparr> = s"
proof -
  from assms have "(worker_threads s)(w := W_idle) = worker_threads s" by auto
  then show ?thesis by simp
qed

lemma cacheFrame_run_alone:
  assumes "\<not> cachingFramesMuticesAccess s" "\<not> requestDataMutex s" "worker_threads s w = W_idle"
  shows "\<exists>n. run P qid (Call_cacheFrame w i # replicate n (Step_worker w)) s
             = Some (s\<lparr>handler := cacheFrame P qid i (handler s)\<rparr>)"
proof (cases "isInCache i (handler s)")
  case True
  with assms system_idle_eq[OF assms(3)] have
    "run P qid (Call_cacheFrame w i # replicate (Suc 0) (Step_worker w)) s
       = Some (s\<lparr>handler := cacheFrame P qid i (handler s)\<rparr>)"
    by (simp add: cacheFrame_def set_worker_def)
  then show ?thesis by blast
next
  case False
  show ?thesis
  proof (cases "cachingFramesMutices (handler s) i \<noteq> None")
    case True
    with False assms system_idle_eq[OF assms(3)] have
      "run P qid (Call_cacheFrame w i # replicate (Suc (Suc 0)) (Step_worker w)) s
         = Some (s\<lparr>handler := cacheFrame P qid i (handler s)\<rparr>)"
      by (auto simp: cacheFrame_def set_worker_def)
    then show ?thesis by blast
  next
    case reg: False
    have "run P qid (Call_cacheFrame w i # replicate 8 (Step_worker w)) s
         = Some (s\<lparr>handler := cacheFrame P qid i (handler s)\<rparr>)"
    proof -
      from assms(3) have idle: "(worker_threads s)(w := W_idle) = worker_threads s" by auto
      show ?thesis
        using False reg assms
        by (auto simp: eval_nat_numeral cacheFrame_def set_worker_def Let_def idle
            cacheFrame_register_def cacheFrame_unlock_def cacheFrame_take_def cacheFrame_insert_def
            intro!: system.equality)
    qed
    then show ?thesis by blast
  qed
qed

lemma drawFrame_run_alone:
  assumes "\<not> cachingFramesMuticesAccess s" "\<not> requestDataMutex s" "render_thread s = R_idle"
  shows "(\<forall>h'. drawFrame P j z (handler s) = Some h' \<longrightarrow>
            (\<exists>n. run P qid (Call_drawFrame j z # replicate n Step_renderer) s
                   = Some (s\<lparr>handler := h'\<rparr>)))
       \<and> (drawFrame P j z (handler s) = None \<longrightarrow>
            (\<exists>n s'. run P qid (Call_drawFrame j z # replicate n Step_renderer) s = Some s'
                   \<and> render_thread s' = R_wait j z \<and> step P qid Step_renderer s' = None))"
proof -
  let ?run = "\<lambda>n. run P qid (Call_drawFrame j z # replicate n Step_renderer) s"
  let ?goal = "\<lambda>n. (\<forall>h'. drawFrame P j z (handler s) = Some h' \<longrightarrow> ?run n = Some (s\<lparr>handler := h'\<rparr>))
       \<and> (drawFrame P j z (handler s) = None \<longrightarrow>
            (\<exists>s'. ?run n = Some s' \<and> render_thread s' = R_wait j z
                  \<and> step P qid Step_renderer s' = None))"
  have "\<exists>n. ?goal n"
  proof (cases "j = currentImageIdx (handler s)")
    case True
    with assms have "?goal 2"
      by (auto simp: eval_nat_numeral drawFrame_def intro!: system.equality)
    then show ?thesis ..
  next
    case cur: False
    show ?thesis
    proof (cases "imageCache (handler s) j")
      case (Some img)
      with cur assms have "?goal 3"
        by (auto simp: eval_nat_numeral drawFrame_def makeCachedFrameCurrent_def
            intro!: system.equality)
      then show ?thesis ..
    next
      case miss: None
      show ?thesis
      proof (cases "cachingFramesMutices (handler s) j")
        case (Some locked)
        show ?thesis
        proof (cases locked)
          case True
          with Some miss cur assms have "?goal 3"
            by (auto simp: eval_nat_numeral drawFrame_def makeCachedFrameCurrent_def)
          then show ?thesis ..
        next
          case False
          with Some have "(cachingFramesMutices (handler s))(j \<mapsto> False)
              = cachingFramesMutices (handler s)" by auto
          with False Some miss cur assms have "?goal 7"
            by (auto simp: eval_nat_numeral drawFrame_def makeCachedFrameCurrent_def
                intro!: system.equality)
          then show ?thesis ..
        qed
      next
        case None
        show ?thesis
        proof (cases "requestedFrame_idx (handler s) = j")
          case True
          with None miss cur assms have "?goal 6"
            by (auto simp: eval_nat_numeral drawFrame_def makeCachedFrameCurrent_def
                loadFrame_def intro!: system.equality)
          then show ?thesis ..
        next
          case req: False
          show ?thesis
          proof (cases "requestedFrame_idx (emit_signalRequestFrame P j False (handler s)) = j")
            case True
            with req None miss cur assms have "?goal 8"
              by (auto simp: eval_nat_numeral drawFrame_def makeCachedFrameCurrent_def
                  loadFrame_def Let_def intro!: system.equality)
            then show ?thesis ..
          next
            case False
            with req None miss cur assms have "?goal 7"
              by (auto simp: eval_nat_numeral drawFrame_def makeCachedFrameCurrent_def
                  loadFrame_def Let_def intro!: system.equality)
            then show ?thesis ..
          qed
        qed
      qed
    qed
  qed
  then show ?thesis by blast
qed

section \<open>Background caching and the waiting renderer\<close>

text \<open>
  C8. In every reachable state of the interleaving model: while a worker is at the insertion
  (line 187) the frame mutex of its frame is registered and locked; when a worker whose image
  \<open>c\<close> is not null is about to unlock the frame mutex (line 195) the cache holds \<open>c\<close> for its
  frame and the mutex is still locked; when it is about to take the entry out (line 197) the
  cache holds \<open>c\<close>, the entry is still there, and the frame mutex is free unless the renderer
  has taken it. The renderer cannot take a locked frame mutex;
  when it holds one (line 84) the worker of that frame is at line 197, so the cache holds that
  worker's image; a renderer that goes on at once makes exactly that image the current frame;
  and in every later state where the renderer reads the cache (line 88) it finds a non-null
  image for the frame and makes it the current frame.
\<close>

theorem cacheFrame_insert_before_unlock:
  assumes "reachable s"
  shows "(\<forall>w i c. worker_threads s w = W_insert i c \<longrightarrow>
            cachingFramesMutices (handler s) i = Some True)
       \<and> (\<forall>w i c. worker_threads s w = W_unlock i c \<and> \<not> isNull c \<longrightarrow>
            imageCache (handler s) i = Some c \<and> cachingFramesMutices (handler s) i = Some True)
       \<and> (\<forall>w i c. worker_threads s w = W_take i c \<and> \<not> isNull c \<longrightarrow>
            imageCache (handler s) i = Some c \<and> cachingFramesMutices (handler s) i \<noteq> None)
       \<and> (\<forall>j z. render_thread s = R_wait j z \<and> cachingFramesMutices (handler s) j = Some True \<longrightarrow>
            (\<forall>P. step P qid Step_renderer s = None))
       \<and> (\<forall>j z. render_thread s = R_release j z \<longrightarrow>
            (\<exists>w c. worker_threads s w = W_take j c))
       \<and> (\<forall>j z w c P s1 P' s2.
            render_thread s = R_release j z \<and> worker_threads s w = W_take j c \<and> \<not> isNull c
            \<and> step P qid Step_renderer s = Some s1 \<and> step P' qid Step_renderer s1 = Some s2 \<longrightarrow>
            imageCache (handler s) j = Some c
            \<and> currentImage (handler s2) = c \<and> currentImageIdx (handler s2) = j)
       \<and> (\<forall>j z w c s' P s''.
            render_thread s = R_release j z \<and> worker_threads s w = W_take j c \<and> \<not> isNull c
            \<and> steps s s' \<and> render_thread s' = R_recheck j z
            \<and> step P qid Step_renderer s' = Some s'' \<longrightarrow>
            (\<exists>c'. imageCache (handler s') j = Some c' \<and> \<not> isNull c'
                  \<and> currentImage (handler s'') = c' \<and> currentImageIdx (handler s'') = j))
       \<and> (\<forall>w i c. worker_threads s w = W_take i c \<longrightarrow>
            cachingFramesMutices (handler s) i
              = Some (renderer_holding (render_thread s) = Some i))"
proof -
  note I = reachable_inv[OF assms]
  have 8: "\<forall>w i c. worker_threads s w = W_take i c \<longrightarrow>
            cachingFramesMutices (handler s) i
              = Some (renderer_holding (render_thread s) = Some i)"
  proof (intro allI impI)
    fix w i c assume "worker_threads s w = W_take i c"
    with owner_entry[OF assms, of w i]
    show "cachingFramesMutices (handler s) i = Some (renderer_holding (render_thread s) = Some i)"
      by simp
  qed
  have 1: "\<forall>w i c. worker_threads s w = W_insert i c \<longrightarrow>
            cachingFramesMutices (handler s) i = Some True"
    using owner_entry[OF assms] by (metis holds_frameMutex.simps(3) owns.simps(3))
  have 2: "\<forall>w i c. worker_threads s w = W_unlock i c \<and> \<not> isNull c \<longrightarrow>
            imageCache (handler s) i = Some c \<and> cachingFramesMutices (handler s) i = Some True"
  proof (intro allI impI)
    fix w i c assume a: "worker_threads s w = W_unlock i c \<and> \<not> isNull c"
    with inv_insertedD[OF I, of w i c] owner_entry[OF assms, of w i]
    show "imageCache (handler s) i = Some c \<and> cachingFramesMutices (handler s) i = Some True"
      by simp
  qed
  have 3: "\<forall>w i c. worker_threads s w = W_take i c \<and> \<not> isNull c \<longrightarrow>
            imageCache (handler s) i = Some c \<and> cachingFramesMutices (handler s) i \<noteq> None"
  proof (intro allI impI)
    fix w i c assume a: "worker_threads s w = W_take i c \<and> \<not> isNull c"
    with inv_insertedD[OF I, of w i c] owner_entry[OF assms, of w i]
    show "imageCache (handler s) i = Some c \<and> cachingFramesMutices (handler s) i \<noteq> None"
      by simp
  qed
  have 4: "\<forall>j z. render_thread s = R_wait j z \<and> cachingFramesMutices (handler s) j = Some True \<longrightarrow>
            (\<forall>P. step P qid Step_renderer s = None)"
    by simp
  have 5: "\<forall>j z. render_thread s = R_release j z \<longrightarrow> (\<exists>w c. worker_threads s w = W_take j c)"
    using owner_taking[OF assms] by blast
  have 6: "\<forall>j z w c P s1 P' s2.
            render_thread s = R_release j z \<and> worker_threads s w = W_take j c \<and> \<not> isNull c
            \<and> step P qid Step_renderer s = Some s1 \<and> step P' qid Step_renderer s1 = Some s2 \<longrightarrow>
            imageCache (handler s) j = Some c
            \<and> currentImage (handler s2) = c \<and> currentImageIdx (handler s2) = j"
    using waiter_reads_at_once[OF assms] by blast
  have 7: "\<forall>j z w c s' P s''.
            render_thread s = R_release j z \<and> worker_threads s w = W_take j c \<and> \<not> isNull c
            \<and> steps s s' \<and> render_thread s' = R_recheck j z
            \<and> step P qid Step_renderer s' = Some s'' \<longrightarrow>
            (\<exists>c'. imageCache (handler s') j = Some c' \<and> \<not> isNull c'
                  \<and> currentImage (handler s'') = c' \<and> currentImageIdx (handler s'') = j)"
    using waiter_observes[OF assms] by blast
  from 1 2 3 4 5 6 7 8 show ?thesis by blast
qed

text \<open>C8 on a schedule where worker 0 caches frame 9 while the renderer draws frame 9.\<close>

theorem cacheFrame_insert_before_unlock_witness:
  "reachable (state_after producer_ready schedule_wait)
   \<and> render_thread (state_after producer_ready schedule_wait) = R_wait 9 1
   \<and> cachingFramesMutices (handler (state_after producer_ready schedule_wait)) 9 = Some True
   \<and> step producer_ready 1 Step_renderer (state_after producer_ready schedule_wait) = None
   \<and> worker_threads (state_after producer_ready (schedule_wait @ [Step_worker 0, Step_worker 0])) 0
       = W_unlock 9 (QImage_pixels [9])
   \<and> imageCache (handler (state_after producer_ready
         (schedule_wait @ [Step_worker 0, Step_worker 0]))) 9 = Some (QImage_pixels [9])
   \<and> cachingFramesMutices (handler (state_after producer_ready
         (schedule_wait @ [Step_worker 0, Step_worker 0]))) 9 = Some True
   \<and> render_thread (state_after producer_ready
         (schedule_wait @ [Step_worker 0, Step_worker 0, Step_worker 0, Step_renderer])) = R_release 9 1
   \<and> worker_threads (state_after producer_ready
         (schedule_wait @ [Step_worker 0, Step_worker 0, Step_worker 0, Step_renderer])) 0
       = W_take 9 (QImage_pixels [9])
   \<and> render_thread (state_after producer_ready
         ((schedule_wait @ [Step_worker 0, Step_worker 0, Step_worker 0, Step_renderer])
          @ [Step_renderer, Step_worker 0])) = R_recheck 9 1
   \<and> currentImageIdx (handler (state_after producer_ready
         ((schedule_wait @ [Step_worker 0, Step_worker 0, Step_worker 0, Step_renderer])
          @ [Step_renderer, Step_worker 0, Step_renderer]))) = 9
   \<and> currentImage (handler (state_after producer_ready
         ((schedule_wait @ [Step_worker 0, Step_worker 0, Step_worker 0, Step_renderer])
          @ [Step_renderer, Step_renderer]))) = QImage_pixels [9]
   \<and> worker_threads (state_after producer_ready
         (schedule_wait @ [Step_worker 0, Step_worker 0, Step_worker 0])) 0
       = W_take 9 (QImage_pixels [9])
   \<and> cachingFramesMutices (handler (state_after producer_ready
         (schedule_wait @ [Step_worker 0, Step_worker 0, Step_worker 0]))) 9 = Some False"
proof -
  let ?T = "state_after producer_ready (schedule_wait @ [Step_worker 0, Step_worker 0, Step_worker 0])"
  have rT: "reachable ?T" by (rule state_after_reachable) (simp add: sched_defs)
  have t1: "worker_threads ?T 0 = W_take 9 (QImage_pixels [9])"
    and t0: "renderer_holding (render_thread ?T) \<noteq> Some 9" by (simp_all add: sched_defs)
  from cacheFrame_insert_before_unlock[OF rT, of 1, THEN conjunct2, THEN conjunct2, THEN conjunct2,
      THEN conjunct2, THEN conjunct2, THEN conjunct2, THEN conjunct2, rule_format,
      of 0 9 "QImage_pixels [9]"] t1 t0
  have t2: "cachingFramesMutices (handler ?T) 9 = Some False" by simp
  let ?A = "state_after producer_ready schedule_wait"
  let ?U = "state_after producer_ready (schedule_wait @ [Step_worker 0, Step_worker 0])"
  let ?R = "state_after producer_ready
         (schedule_wait @ [Step_worker 0, Step_worker 0, Step_worker 0, Step_renderer])"
  let ?C = "state_after producer_ready
         ((schedule_wait @ [Step_worker 0, Step_worker 0, Step_worker 0, Step_renderer])
          @ [Step_renderer, Step_worker 0])"
  let ?D = "state_after producer_ready
         ((schedule_wait @ [Step_worker 0, Step_worker 0, Step_worker 0, Step_renderer])
          @ [Step_renderer, Step_worker 0, Step_renderer])"
  let ?E1 = "state_after producer_ready
         ((schedule_wait @ [Step_worker 0, Step_worker 0, Step_worker 0, Step_renderer])
          @ [Step_renderer])"
  let ?E2 = "state_after producer_ready
         ((schedule_wait @ [Step_worker 0, Step_worker 0, Step_worker 0, Step_renderer])
          @ [Step_renderer, Step_renderer])"
  have rA: "reachable ?A" by (rule state_after_reachable) (simp add: sched_defs)
  have rU: "reachable ?U" by (rule state_after_reachable) (simp add: sched_defs)
  have rR: "reachable ?R" by (rule state_after_reachable) (simp add: sched_defs)
  have st: "steps ?R ?C" by (rule state_after_steps) (simp add: sched_defs)
  have a1: "render_thread ?A = R_wait 9 1"
    and a2: "cachingFramesMutices (handler ?A) 9 = Some True"
    by (simp_all add: sched_defs)
  have u1: "worker_threads ?U 0 = W_unlock 9 (QImage_pixels [9])" by (simp add: sched_defs)
  have r1: "render_thread ?R = R_release 9 1"
    and r2: "worker_threads ?R 0 = W_take 9 (QImage_pixels [9])"
    by (simp_all add: sched_defs)
  have c1: "render_thread ?C = R_recheck 9 1" by (simp add: sched_defs)
  have c2: "step producer_ready 1 Step_renderer ?C = Some ?D" by (simp add: sched_defs)
  have e1: "step producer_ready 1 Step_renderer ?R = Some ?E1"
    and e2: "step producer_ready 1 Step_renderer ?E1 = Some ?E2"
    by (simp_all add: sched_defs)
  note TA = cacheFrame_insert_before_unlock[OF rA, of 1]
  note TU = cacheFrame_insert_before_unlock[OF rU, of 1]
  note TR = cacheFrame_insert_before_unlock[OF rR, of 1]
  from TA[THEN conjunct2, THEN conjunct2, THEN conjunct2, THEN conjunct1, rule_format, of 9 1
      producer_ready] a1 a2
  have a3: "step producer_ready 1 Step_renderer ?A = None" by simp
  from TU[THEN conjunct2, THEN conjunct1, rule_format, of 0 9 "QImage_pixels [9]"] u1
  have u2: "imageCache (handler ?U) 9 = Some (QImage_pixels [9])"
    and u3: "cachingFramesMutices (handler ?U) 9 = Some True" by simp_all
  from TR[THEN conjunct2, THEN conjunct2, THEN conjunct2, THEN conjunct2, THEN conjunct2,
      THEN conjunct2, THEN conjunct1, rule_format,
      of 9 1 0 "QImage_pixels [9]" ?C producer_ready ?D] r1 r2 st c1 c2
  have d: "currentImageIdx (handler ?D) = 9" by auto
  from TR[THEN conjunct2, THEN conjunct2, THEN conjunct2, THEN conjunct2, THEN conjunct2,
      THEN conjunct1, rule_format, of 9 1 0 "QImage_pixels [9]" producer_ready ?E1 producer_ready ?E2]
    r1 r2 e1 e2
  have e: "currentImage (handler ?E2) = QImage_pixels [9]" by simp
  from rA a1 a2 a3 u1 u2 u3 r1 r2 c1 d e t1 t2 show ?thesis by blast
qed

text \<open>
  Two schedules in which \<^verbatim>\<open>drawFrame\<close> does what its code says and the renderer gets nothing
  from the worker. First schedule: worker 0 is in the request for frame 9 and the renderer
  waits for its frame mutex; the producer leaves the buffer as it is, the worker inserts
  nothing, and the renderer returns without the frame (\<^verbatim>\<open>loadingInBackground\<close> is true). Second
  schedule: frame 9 is the current frame when worker 0 is in the request for frame 9; the
  renderer draws frame 9 and returns without waiting, the frame mutex still locked.
\<close>

lemma drawFrame_returns_without_worker:
  "run producer_deferring 1
       (schedule_wait @ [Step_worker 0, Step_worker 0, Step_worker 0,
                         Step_renderer, Step_renderer, Step_renderer, Step_renderer])
       (system_new (videoHandler_new (4, 4) (-1))) \<noteq> None
   \<and> worker_threads (state_after producer_deferring schedule_wait) 0 = W_request 9
   \<and> cachingFramesMutices (handler (state_after producer_deferring schedule_wait)) 9 = Some True
   \<and> render_thread (state_after producer_deferring schedule_wait) = R_wait 9 1
   \<and> render_thread (state_after producer_deferring
         (schedule_wait @ [Step_worker 0, Step_worker 0, Step_worker 0,
                           Step_renderer, Step_renderer, Step_renderer, Step_renderer])) = R_idle
   \<and> imageCache (handler (state_after producer_deferring
         (schedule_wait @ [Step_worker 0, Step_worker 0, Step_worker 0,
                           Step_renderer, Step_renderer, Step_renderer, Step_renderer]))) 9 = None
   \<and> currentImageIdx (handler (state_after producer_deferring
         (schedule_wait @ [Step_worker 0, Step_worker 0, Step_worker 0,
                           Step_renderer, Step_renderer, Step_renderer, Step_renderer]))) = -1
   \<and> loadingInBackground (handler (state_after producer_deferring
         (schedule_wait @ [Step_worker 0, Step_worker 0, Step_worker 0,
                           Step_renderer, Step_renderer, Step_renderer, Step_renderer])))
   \<and> run producer_ready 1 (schedule_current @ [Call_drawFrame 9 1, Step_renderer, Step_renderer])
       (system_new (videoHandler_new (4, 4) (-1))) \<noteq> None
   \<and> worker_threads (state_after producer_ready schedule_current) 0 = W_request 9
   \<and> cachingFramesMutices (handler (state_after producer_ready schedule_current)) 9 = Some True
   \<and> render_thread (state_after producer_ready schedule_current) = R_idle
   \<and> currentImageIdx (handler (state_after producer_ready schedule_current)) = 9
   \<and> render_thread (state_after producer_ready
         (schedule_current @ [Call_drawFrame 9 1, Step_renderer, Step_renderer])) = R_idle
   \<and> worker_threads (state_after producer_ready
         (schedule_current @ [Call_drawFrame 9 1, Step_renderer, Step_renderer])) 0 = W_request 9
   \<and> cachingFramesMutices (handler (state_after producer_ready
         (schedule_current @ [Call_drawFrame 9 1, Step_renderer, Step_renderer]))) 9 = Some True
   \<and> imageCache (handler (state_after producer_ready
         (schedule_current @ [Call_drawFrame 9 1, Step_renderer, Step_renderer]))) 9 = None"
  by (simp add: sched_defs)

text \<open>
  The path of \<^verbatim>\<open>drawFrame\<close> through the frame mutex, and the requests. In every reachable state:
  a renderer that has missed the cache and finds the frame registered goes on to wait for the
  frame mutex; it cannot take the mutex
  while it is locked and takes it once it is free; from there it releases the mutex, reads the
  cache and draws, and none of these steps emits an event, so no \<^verbatim>\<open>signalRequestFrame\<close>; it
  gets the frame from the cache when the image of the worker it waited for is not null. At
  most one thread is inside a request at any time.
\<close>

lemma drawFrame_waits_for_worker:
  assumes "reachable s"
  shows "(\<forall>j z P qid. render_thread s = R_contains j z \<and> cachingFramesMutices (handler s) j \<noteq> None \<longrightarrow>
            (\<exists>s'. step P qid Step_renderer s = Some s' \<and> render_thread s' = R_wait j z
                  \<and> handler s' = handler s))
       \<and> (\<forall>j z P qid. render_thread s = R_wait j z \<longrightarrow>
            cachingFramesMutices (handler s) j \<noteq> None
            \<and> (cachingFramesMutices (handler s) j = Some True \<longrightarrow>
                  step P qid Step_renderer s = None)
            \<and> (cachingFramesMutices (handler s) j = Some False \<longrightarrow>
                  (\<exists>s'. step P qid Step_renderer s = Some s' \<and> render_thread s' = R_release j z
                        \<and> events (handler s') = events (handler s))))
       \<and> (\<forall>j z P qid. render_thread s = R_release j z \<longrightarrow>
            (\<exists>s'. step P qid Step_renderer s = Some s' \<and> render_thread s' = R_recheck j z
                  \<and> events (handler s') = events (handler s)))
       \<and> (\<forall>j z P qid. render_thread s = R_recheck j z \<longrightarrow>
            (\<exists>s'. step P qid Step_renderer s = Some s' \<and> render_thread s' = R_paint j z
                  \<and> events (handler s') = events (handler s)
                  \<and> (imageCache (handler s) j \<noteq> None \<longrightarrow> currentImageIdx (handler s') = j)))
       \<and> (\<forall>j z w c s' P qid s''.
            render_thread s = R_release j z \<and> worker_threads s w = W_take j c \<and> \<not> isNull c
            \<and> steps s s' \<and> render_thread s' = R_recheck j z
            \<and> step P qid Step_renderer s' = Some s'' \<longrightarrow>
            currentImageIdx (handler s'') = j
            \<and> Some (currentImage (handler s'')) = imageCache (handler s') j)
       \<and> (renderer_requesting (render_thread s) \<longrightarrow>
            (\<forall>w. \<not> worker_requesting (worker_threads s w)))
       \<and> (\<forall>w w'. worker_requesting (worker_threads s w) \<and> worker_requesting (worker_threads s w')
            \<longrightarrow> w = w')"
proof -
  note I = reachable_inv[OF assms]
  have 1: "\<forall>j z P qid. render_thread s = R_contains j z \<and> cachingFramesMutices (handler s) j \<noteq> None \<longrightarrow>
            (\<exists>s'. step P qid Step_renderer s = Some s' \<and> render_thread s' = R_wait j z
                  \<and> handler s' = handler s)"
    using inv_accessD[OF I] by auto
  have 2: "\<forall>j z P qid. render_thread s = R_wait j z \<longrightarrow>
            cachingFramesMutices (handler s) j \<noteq> None
            \<and> (cachingFramesMutices (handler s) j = Some True \<longrightarrow>
                  step P qid Step_renderer s = None)
            \<and> (cachingFramesMutices (handler s) j = Some False \<longrightarrow>
                  (\<exists>s'. step P qid Step_renderer s = Some s' \<and> render_thread s' = R_release j z
                        \<and> events (handler s') = events (handler s)))"
    using inv_waiterD(1)[OF I] by auto
  have 3: "\<forall>j z P qid. render_thread s = R_release j z \<longrightarrow>
            (\<exists>s'. step P qid Step_renderer s = Some s' \<and> render_thread s' = R_recheck j z
                  \<and> events (handler s') = events (handler s))"
    by auto
  have 4: "\<forall>j z P qid. render_thread s = R_recheck j z \<longrightarrow>
            (\<exists>s'. step P qid Step_renderer s = Some s' \<and> render_thread s' = R_paint j z
                  \<and> events (handler s') = events (handler s)
                  \<and> (imageCache (handler s) j \<noteq> None \<longrightarrow> currentImageIdx (handler s') = j))"
    by (auto simp: makeCachedFrameCurrent_def split: option.splits)
  have 5: "\<forall>j z w c s' P qid s''.
            render_thread s = R_release j z \<and> worker_threads s w = W_take j c \<and> \<not> isNull c
            \<and> steps s s' \<and> render_thread s' = R_recheck j z
            \<and> step P qid Step_renderer s' = Some s'' \<longrightarrow>
            currentImageIdx (handler s'') = j
            \<and> Some (currentImage (handler s'')) = imageCache (handler s') j"
    using waiter_observes[OF assms] by metis
  have 6: "renderer_requesting (render_thread s) \<longrightarrow>
            (\<forall>w. \<not> worker_requesting (worker_threads s w))"
    using inv_requestD(2)[OF I] by blast
  have 7: "\<forall>w w'. worker_requesting (worker_threads s w) \<and> worker_requesting (worker_threads s w')
            \<longrightarrow> w = w'"
    using inv_requestD(3)[OF I] by blast
  from 1 2 3 4 5 6 7 show ?thesis by blast
qed

text \<open>The same on schedules where worker 0 caches frame 9 while the renderer draws frame 9,
  and on one where the renderer is inside a request while worker 0 wants to start one.\<close>

lemma drawFrame_waits_for_worker_example:
  "reachable (state_after producer_ready schedule_contains)
   \<and> render_thread (state_after producer_ready schedule_contains) = R_contains 9 1
   \<and> cachingFramesMutices (handler (state_after producer_ready schedule_contains)) 9 \<noteq> None
   \<and> render_thread (state_after producer_ready (schedule_contains @ [Step_renderer])) = R_wait 9 1
   \<and> cachingFramesMutices (handler (state_after producer_ready schedule_wait)) 9 = Some True
   \<and> step producer_ready 1 Step_renderer (state_after producer_ready schedule_wait) = None
   \<and> worker_requesting (worker_threads (state_after producer_ready schedule_wait) 0)
   \<and> \<not> renderer_requesting (render_thread (state_after producer_ready schedule_wait))
   \<and> render_thread (state_after producer_ready
         (schedule_wait @ [Step_worker 0, Step_worker 0, Step_worker 0, Step_renderer])) = R_release 9 1
   \<and> worker_threads (state_after producer_ready
         (schedule_wait @ [Step_worker 0, Step_worker 0, Step_worker 0, Step_renderer])) 0
       = W_take 9 (QImage_pixels [9])
   \<and> currentImageIdx (handler (state_after producer_ready
         ((schedule_wait @ [Step_worker 0, Step_worker 0, Step_worker 0, Step_renderer])
          @ [Step_renderer, Step_worker 0, Step_renderer]))) = 9
   \<and> events (handler (state_after producer_ready
         ((schedule_wait @ [Step_worker 0, Step_worker 0, Step_worker 0, Step_renderer])
          @ [Step_renderer, Step_worker 0, Step_renderer])))
       = [signalRequestFrame 9 True]
   \<and> renderer_requesting (render_thread (state_after producer_ready schedule_request))
   \<and> \<not> worker_requesting (worker_threads (state_after producer_ready schedule_request) 0)
   \<and> step producer_ready 1 (Step_worker 0) (state_after producer_ready schedule_request) = None"
proof -
  let ?B = "state_after producer_ready schedule_contains"
  let ?A = "state_after producer_ready schedule_wait"
  let ?R = "state_after producer_ready
         (schedule_wait @ [Step_worker 0, Step_worker 0, Step_worker 0, Step_renderer])"
  let ?C = "state_after producer_ready
         ((schedule_wait @ [Step_worker 0, Step_worker 0, Step_worker 0, Step_renderer])
          @ [Step_renderer, Step_worker 0])"
  let ?D = "state_after producer_ready
         ((schedule_wait @ [Step_worker 0, Step_worker 0, Step_worker 0, Step_renderer])
          @ [Step_renderer, Step_worker 0, Step_renderer])"
  let ?G = "state_after producer_ready schedule_request"
  have rB: "reachable ?B" by (rule state_after_reachable) (simp add: sched_defs schedule_contains_def)
  have rA: "reachable ?A" by (rule state_after_reachable) (simp add: sched_defs)
  have rR: "reachable ?R" by (rule state_after_reachable) (simp add: sched_defs)
  have rG: "reachable ?G" by (rule state_after_reachable) (simp add: sched_defs schedule_request_def)
  have st: "steps ?R ?C" by (rule state_after_steps) (simp add: sched_defs)
  have b1: "render_thread ?B = R_contains 9 1"
    and b2: "cachingFramesMutices (handler ?B) 9 \<noteq> None"
    and b3: "render_thread (state_after producer_ready (schedule_contains @ [Step_renderer])) = R_wait 9 1"
    by (simp_all add: sched_defs schedule_contains_def)
  have a1: "render_thread ?A = R_wait 9 1"
    and a2: "cachingFramesMutices (handler ?A) 9 = Some True"
    and a4: "worker_requesting (worker_threads ?A 0)"
    by (simp_all add: sched_defs)
  have r1: "render_thread ?R = R_release 9 1"
    and r2: "worker_threads ?R 0 = W_take 9 (QImage_pixels [9])"
    by (simp_all add: sched_defs)
  have c1: "render_thread ?C = R_recheck 9 1" by (simp add: sched_defs)
  have c2: "step producer_ready 1 Step_renderer ?C = Some ?D" by (simp add: sched_defs)
  have d2: "events (handler ?D) = [signalRequestFrame 9 True]" by (simp add: sched_defs)
  have g1: "renderer_requesting (render_thread ?G)"
    and g3: "step producer_ready 1 (Step_worker 0) ?G = None"
    by (simp_all add: sched_defs schedule_request_def)
  note TA = drawFrame_waits_for_worker[OF rA]
  note TR = drawFrame_waits_for_worker[OF rR]
  note TG = drawFrame_waits_for_worker[OF rG]
  from TA[THEN conjunct2, THEN conjunct1, rule_format, of 9 1 producer_ready 1] a1 a2
  have a3: "step producer_ready 1 Step_renderer ?A = None" by simp
  from TR[THEN conjunct2, THEN conjunct2, THEN conjunct2, THEN conjunct2, THEN conjunct1,
      rule_format, of 9 1 0 "QImage_pixels [9]" ?C producer_ready 1 ?D] r1 r2 st c1 c2
  have d: "currentImageIdx (handler ?D) = 9" by simp
  from TG[THEN conjunct2, THEN conjunct2, THEN conjunct2, THEN conjunct2, THEN conjunct2,
      THEN conjunct1, rule_format, of 0] g1
  have g2: "\<not> worker_requesting (worker_threads ?G 0)" by simp
  from TA[THEN conjunct2, THEN conjunct2, THEN conjunct2, THEN conjunct2, THEN conjunct2,
      THEN conjunct1] a4
  have a5: "\<not> renderer_requesting (render_thread ?A)" by blast
  from rB b1 b2 b3 a2 a3 a4 a5 r1 r2 d d2 g1 g2 g3 show ?thesis by blast
qed

section \<open>Interleavings that request a frame twice\<close>

text \<open>
  C9 does not hold of the code. Worker 0 is in the request for frame 9, registered with its
  frame mutex locked, when the renderer is asked to draw frame 9, which is not the current
  frame. The renderer misses the cache (line 74); worker 0 then delivers frame 9 into the cache,
  unlocks and takes its entry out; worker 1 requests frame 10. When the renderer looks at
  \<^verbatim>\<open>cachingFramesMutices\<close> (line 78) frame 9 is in the cache but no longer registered, and the
  shared buffer holds frame 10: the renderer never waits for a frame mutex and requests frame 9
  itself, a second time.
\<close>

theorem drawFrame_race_second_decode:
  "run producer_ready 1 schedule_race (system_new (videoHandler_new (4, 4) (-1))) \<noteq> None
   \<and> worker_threads (state_after producer_ready schedule_decoding) 0 = W_request 9
   \<and> cachingFramesMutices (handler (state_after producer_ready schedule_decoding)) 9 = Some True
   \<and> render_thread (state_after producer_ready schedule_decoding) = R_idle
   \<and> currentImageIdx (handler (state_after producer_ready schedule_decoding)) = -1
   \<and> render_thread (state_after producer_ready schedule_race_mid) = R_contains 9 1
   \<and> imageCache (handler (state_after producer_ready schedule_race_mid)) 9
       = Some (QImage_pixels [9])
   \<and> cachingFramesMutices (handler (state_after producer_ready schedule_race_mid)) 9 = None
   \<and> requestedFrame_idx (handler (state_after producer_ready schedule_race_mid)) = 10
   \<and> render_thread (state_after producer_ready schedule_race) = R_idle
   \<and> currentImageIdx (handler (state_after producer_ready schedule_race)) = 9
   \<and> events (handler (state_after producer_ready schedule_race))
       = [signalRequestFrame 9 True, cachingTimerStart, signalRequestFrame 10 True,
          signalRequestFrame 9 False, drawImage (4, 4) 1 (QImage_pixels [9])]"
  by (simp add: sched_defs)

text \<open>
  C4 does not hold of the code when calls interleave. Worker 0 is in the request for frame 9,
  registered with its frame mutex locked and the frame not yet cached, when worker 1 is asked
  to cache frame 9; run at once from its first line to its last, the call would return the
  handler unchanged. Worker 1 finds the frame not cached (line 162); worker 0 then delivers
  frame 9 into the cache, unlocks, takes its entry out and returns. When worker 1 looks at
  \<^verbatim>\<open>cachingFramesMutices\<close> (line 171) frame 9 is in the cache and not registered: worker 1
  registers it, requests frame 9 a second time and inserts it again.
\<close>

theorem cacheFrame_race_second_decode:
  "run producer_ready 1 schedule_twice (system_new (videoHandler_new (4, 4) (-1))) \<noteq> None
   \<and> worker_threads (state_after producer_ready schedule_decoding) 0 = W_request 9
   \<and> worker_threads (state_after producer_ready schedule_decoding) 1 = W_idle
   \<and> cachingFramesMutices (handler (state_after producer_ready schedule_decoding)) 9 = Some True
   \<and> imageCache (handler (state_after producer_ready schedule_decoding)) 9 = None
   \<and> cacheFrame producer_ready 1 9 (handler (state_after producer_ready schedule_decoding))
       = handler (state_after producer_ready schedule_decoding)
   \<and> worker_threads (state_after producer_ready schedule_twice_mid) 0 = W_idle
   \<and> worker_threads (state_after producer_ready schedule_twice_mid) 1 = W_register 9
   \<and> imageCache (handler (state_after producer_ready schedule_twice_mid)) 9
       = Some (QImage_pixels [9])
   \<and> cachingFramesMutices (handler (state_after producer_ready schedule_twice_mid)) 9 = None
   \<and> worker_threads (state_after producer_ready schedule_twice) 1 = W_idle
   \<and> events (handler (state_after producer_ready schedule_twice))
       = [signalRequestFrame 9 True, cachingTimerStart, signalRequestFrame 9 True,
          cachingTimerStart]"
  by (simp add: sched_defs cacheFrame_def)

end
